theory Spec2Isabelle
  imports Complex_Main
begin

section \<open>Shared adapter helpers (src/backend/src/providers/baseProvider.ts)\<close>

text \<open>
  JavaScript numbers are modelled as \<open>real\<close> (or \<open>int\<close> where the code only ever
  holds integers), without rounding error and without \<open>NaN\<close> or the infinities; an
  optional argument is an \<open>option\<close>, \<open>None\<close> being \<open>undefined\<close>. \<open>Math.round\<close>
  rounds half up, which is \<^const>\<open>round\<close>.
\<close>

subsection \<open>standardizeImageSize\<close>

definition roundTo64 :: "real \<Rightarrow> int" where
  "roundTo64 v = round (v / 64) * 64"

text \<open>
  The result object \<open>{ width, height }\<close> is the pair \<open>(width, height)\<close>.
  \<open>width ? \<dots> : defaultSize\<close> takes the default for \<open>undefined\<close> and for \<open>0\<close>.
\<close>

definition standardizeImageSize :: "real option \<Rightarrow> real option \<Rightarrow> int \<times> int" where
  "standardizeImageSize w h =
     (let defaultSize = 1024;
          finalWidth = (case w of
                          None \<Rightarrow> defaultSize
                        | Some v \<Rightarrow> if v = 0 then defaultSize
                                    else roundTo64 (max 256 (min 2048 v)));
          finalHeight = (case h of
                          None \<Rightarrow> defaultSize
                        | Some v \<Rightarrow> if v = 0 then defaultSize
                                    else roundTo64 (max 256 (min 2048 v)))
      in (finalWidth, finalHeight))"

subsection \<open>truncatePrompt\<close>

text \<open>
  \<open>String.prototype.lastIndexOf\<close>: the greatest index holding the character, or \<open>-1\<close>.
\<close>

primrec lastIndexOf :: "string \<Rightarrow> char \<Rightarrow> int" where
  "lastIndexOf [] c = - 1"
| "lastIndexOf (x # xs) c =
     (let r = lastIndexOf xs c
      in if 0 \<le> r then r + 1 else if x = c then 0 else - 1)"

text \<open>
  \<open>substring(0, n)\<close> is \<open>take n\<close>. The maximum length is a character count, a
  natural number.
\<close>

definition truncatePrompt :: "string \<Rightarrow> nat \<Rightarrow> string" where
  "truncatePrompt prompt maxLength =
     (if length prompt \<le> maxLength then prompt
      else let truncated = take maxLength prompt;
               lastSpace = lastIndexOf truncated (CHR '' '')
           in if 0 < lastSpace then take (nat lastSpace) truncated else truncated)"

text \<open>
  A cut of \<open>prompt\<close> after its first \<open>n\<close> characters splits a word when the characters
  on both sides of the cut are not spaces.
\<close>

definition splitsWord :: "string \<Rightarrow> nat \<Rightarrow> bool" where
  "splitsWord prompt n =
     (0 < n \<and> n < length prompt \<and> prompt ! (n - 1) \<noteq> CHR '' '' \<and> prompt ! n \<noteq> CHR '' '')"

subsection \<open>mapError\<close>

text \<open>
  A thrown value as \<open>mapError\<close> reads it: its \<open>message\<close> (the empty string is
  falsy, as \<open>undefined\<close> is) and, for an HTTP failure, the \<open>response\<close> with its
  status, its headers and \<open>data.error.message\<close>.
\<close>

record http_response =
  status :: int
  headers :: "string \<rightharpoonup> string"
  data_error_message :: "string option"

record js_error =
  message :: string
  response :: "http_response option"

text \<open>The result of \<open>parseInt\<close>: \<open>NaN\<close> or an integer.\<close>

datatype js_number = NaN | Num int

definition isWhiteSpace :: "char \<Rightarrow> bool" where
  "isWhiteSpace c =
     (c = CHR '' '' \<or> c = CHR 0x09 \<or> c = CHR 0x0A \<or> c = CHR 0x0B \<or> c = CHR 0x0C \<or> c = CHR 0x0D)"

definition digitValue :: "char \<Rightarrow> nat option" where
  "digitValue c =
     (let n = (of_char c :: nat)
      in if 48 \<le> n \<and> n \<le> 57 then Some (n - 48)
         else if 97 \<le> n \<and> n \<le> 122 then Some (n - 87)
         else if 65 \<le> n \<and> n \<le> 90 then Some (n - 55)
         else None)"

text \<open>
  The longest prefix of digits of the radix; \<open>None\<close> while no digit has been read.
\<close>

fun parseDigits :: "nat \<Rightarrow> string \<Rightarrow> nat option \<Rightarrow> nat option" where
  "parseDigits R [] acc = acc"
| "parseDigits R (c # cs) acc =
     (case digitValue c of
        None \<Rightarrow> acc
      | Some d \<Rightarrow>
          if d < R then parseDigits R cs (Some ((case acc of None \<Rightarrow> 0 | Some a \<Rightarrow> a) * R + d))
          else acc)"

text \<open>
  \<open>parseInt(s)\<close> with no radix: leading white space is skipped, a sign is read, a
  \<open>0x\<close> prefix selects radix 16, and the digits that follow are the value; with no
  digit the result is \<open>NaN\<close>.
\<close>

definition parseInt :: "string \<Rightarrow> js_number" where
  "parseInt s =
     (let s1 = dropWhile isWhiteSpace s;
          (sign, s2) = (case s1 of
                          [] \<Rightarrow> (1, s1)
                        | c # cs \<Rightarrow> if c = CHR ''-'' then (- 1, cs)
                                    else if c = CHR ''+'' then (1, cs) else (1, s1));
          (R, s3) = (if take 2 s2 = ''0x'' \<or> take 2 s2 = ''0X'' then (16, drop 2 s2)
                     else (10, s2))
      in case parseDigits R s3 None of
           None \<Rightarrow> NaN
         | Some n \<Rightarrow> Num (sign * int n))"

record ProviderError =
  code :: string
  pe_message :: string
  retryable :: bool
  retryAfter :: "js_number option"

definition mapError :: "js_error \<Rightarrow> ProviderError" where
  "mapError error =
     (let baseError = \<lparr> code = ''UNKNOWN_ERROR'',
                        pe_message = (if message error = [] then ''Unknown error occurred''
                                      else message error),
                        retryable = False,
                        retryAfter = None \<rparr>
      in case response error of
           None \<Rightarrow> baseError
         | Some r \<Rightarrow>
             if status r = 429 then
               \<lparr> code = ''RATE_LIMIT_EXCEEDED'',
                 pe_message = ''Rate limit exceeded'',
                 retryable = True,
                 retryAfter = Some (parseInt (case headers r ''retry-after'' of
                                                None \<Rightarrow> ''60''
                                              | Some v \<Rightarrow> if v = [] then ''60'' else v)) \<rparr>
             else if 500 \<le> status r then
               \<lparr> code = ''SERVER_ERROR'',
                 pe_message = ''Provider server error'',
                 retryable = True,
                 retryAfter = None \<rparr>
             else if status r = 400 then
               \<lparr> code = ''INVALID_REQUEST'',
                 pe_message = (case data_error_message r of
                                 None \<Rightarrow> ''Invalid request parameters''
                               | Some m \<Rightarrow> if m = [] then ''Invalid request parameters'' else m),
                 retryable = False,
                 retryAfter = None \<rparr>
             else if status r = 401 then
               \<lparr> code = ''UNAUTHORIZED'',
                 pe_message = ''Invalid API key or authentication failed'',
                 retryable = False,
                 retryAfter = None \<rparr>
             else baseError)"

subsection \<open>retryWithBackoff\<close>

text \<open>
  \<open>providerError.retryAfter ? \<dots> : \<dots>\<close>: \<open>undefined\<close>, \<open>NaN\<close> and \<open>0\<close> are falsy.
\<close>

definition backoffDelay :: "ProviderError \<Rightarrow> int \<Rightarrow> int \<Rightarrow> int" where
  "backoffDelay providerError baseDelay attempt =
     (case retryAfter providerError of
        Some (Num n) \<Rightarrow> if n \<noteq> 0 then n * 1000 else baseDelay * 2 ^ nat (attempt - 1)
      | _ \<Rightarrow> baseDelay * 2 ^ nat (attempt - 1))"

text \<open>
  The remote operation is its outcome at each attempt: \<open>operation k\<close> is what the
  \<open>k\<close>-th call returns (\<open>Inr\<close>) or throws (\<open>Inl\<close>). The loop returns the outcome, the
  delays handed to \<open>setTimeout\<close> in order (milliseconds), and the number of calls of
  the operation.
\<close>

function retryLoop ::
  "(int \<Rightarrow> js_error + 'a) \<Rightarrow> int \<Rightarrow> int \<Rightarrow> int \<Rightarrow> int list \<Rightarrow> nat
     \<Rightarrow> (js_error + 'a) \<times> int list \<times> nat" where
  "retryLoop operation maxRetries baseDelay attempt slept calls =
     (if attempt \<le> maxRetries then
        (case operation attempt of
           Inr v \<Rightarrow> (Inr v, slept, calls + 1)
         | Inl error \<Rightarrow>
             let providerError = mapError error
             in if \<not> retryable providerError \<or> attempt = maxRetries
                then (Inl error, slept, calls + 1)
                else retryLoop operation maxRetries baseDelay (attempt + 1)
                       (slept @ [backoffDelay providerError baseDelay attempt]) (calls + 1))
      else (Inl \<lparr> message = ''Max retries exceeded'', response = None \<rparr>, slept, calls))"
  by pat_completeness auto
termination
  by (relation "measure (\<lambda>(operation, maxRetries, baseDelay, attempt, slept, calls).
                           nat (maxRetries + 1 - attempt))") auto

declare retryLoop.simps [simp del]

definition retryWithBackoff ::
  "(int \<Rightarrow> js_error + 'a) \<Rightarrow> int \<Rightarrow> int \<Rightarrow> (js_error + 'a) \<times> int list \<times> nat" where
  "retryWithBackoff operation maxRetries baseDelay =
     retryLoop operation maxRetries baseDelay 1 [] 0"

section \<open>The provider manager (src/unnamed/part_000)\<close>

subsection \<open>Data\<close>

text \<open>
  \<open>ImageProvider\<close> is the union type \<open>'dalleE3' | 'imagen4' | 'stableDiffusion'\<close>.
  Where two interfaces of the source share a field name, the later record's field
  carries a prefix (\<open>sel_\<close>, \<open>cand_\<close>, \<open>m_\<close>, \<open>cap_\<close>, \<open>metadata_\<close>).
\<close>

datatype ImageProvider = dalleE3 | imagen4 | stableDiffusion

definition providerString :: "ImageProvider \<Rightarrow> string" where
  "providerString p =
     (case p of dalleE3 \<Rightarrow> ''dalleE3'' | imagen4 \<Rightarrow> ''imagen4''
      | stableDiffusion \<Rightarrow> ''stableDiffusion'')"

record UnifiedImageParams =
  prompt :: string
  negativePrompt :: "string option"
  width :: "real option"
  height :: "real option"
  quality :: "string option"
  style :: "string option"
  count :: "real option"
  seed :: "real option"
  provider :: "ImageProvider option"

record CostEstimate =
  totalCost :: real
  costPerImage :: real
  currency :: string
  breakdown :: "(string \<times> real) list"

text \<open>
  \<open>calculateProviderScore\<close> takes the capabilities as \<open>any\<close> and reads a property
  \<open>name\<close> of them, which the interface \<open>ProviderCapabilities\<close> does not declare:
  \<open>name\<close> is \<open>None\<close> for an object without the property.
\<close>

record ProviderCapabilities =
  maxImageSize :: "real \<times> real"
  supportedSizes :: "string list"
  supportedFormats :: "string list"
  maxPromptLength :: real
  supportsNegativePrompts :: bool
  supportsStylePresets :: bool
  maxBatchSize :: real
  cap_costPerImage :: real
  name :: "ImageProvider option"

record ProviderConfig =
  enabled :: bool
  priority :: real
  maxRetries :: real
  healthCheckInterval :: real
  costWeight :: real
  qualityWeight :: real
  speedWeight :: real

record ProviderSelection =
  sel_provider :: ImageProvider
  reason :: string
  estimatedCost :: real
  confidence :: real

record ImageResult =
  result_id :: string
  imageUrl :: string
  thumbnailUrl :: string
  metadata_provider :: ImageProvider
  metadata_prompt :: string
  metadata_generationTime :: real
  metadata_cost :: real

text \<open>
  An adapter behind the \<open>BaseImageProvider\<close> contract. Its remote call is opaque:
  \<open>generateImage\<close> is the outcome of the call for a request, a result or the error
  thrown; \<open>validateParams\<close> is the \<open>valid\<close> flag it reports.
\<close>

record BaseImageProvider =
  getName :: ImageProvider
  generateImage :: "UnifiedImageParams \<Rightarrow> js_error + ImageResult"
  validateParams :: "UnifiedImageParams \<Rightarrow> bool"
  getCapabilities :: ProviderCapabilities
  estimateCost :: "UnifiedImageParams \<Rightarrow> CostEstimate"

text \<open>
  The manager's maps. \<open>providers\<close> is a \<open>Map\<close> iterated in insertion order, so an
  association list; \<open>config\<close> is set for all three providers by the constructor and
  never deleted from, so a total function; \<open>healthStatus\<close> holds a flag for the
  registered providers.
\<close>

record ProviderManager =
  providers :: "(ImageProvider \<times> BaseImageProvider) list"
  config :: "ImageProvider \<Rightarrow> ProviderConfig"
  healthStatus :: "ImageProvider \<rightharpoonup> bool"

subsection \<open>Configuration and capabilities of the three adapters\<close>

definition defaultConfig :: ProviderConfig where
  "defaultConfig =
     \<lparr> enabled = True, priority = 1, maxRetries = 3, healthCheckInterval = 300000,
       costWeight = 0.4, qualityWeight = 0.4, speedWeight = 0.2 \<rparr>"

definition initializeDefaultConfig :: "ImageProvider \<Rightarrow> ProviderConfig" where
  "initializeDefaultConfig p =
     (case p of
        dalleE3 \<Rightarrow>
          defaultConfig \<lparr> priority := 2, costWeight := 0.3, qualityWeight := 0.5,
                          speedWeight := 0.2 \<rparr>
      | imagen4 \<Rightarrow>
          defaultConfig \<lparr> priority := 1, costWeight := 0.4, qualityWeight := 0.4,
                          speedWeight := 0.2 \<rparr>
      | stableDiffusion \<Rightarrow>
          defaultConfig \<lparr> priority := 3, costWeight := 0.6, qualityWeight := 0.3,
                          speedWeight := 0.1 \<rparr>)"

text \<open>
  \<open>getCapabilities()\<close> of \<open>DalleProvider\<close>, \<open>ImagenProvider\<close> and
  \<open>StableDiffusionProvider\<close>: none of the three objects has a \<open>name\<close> property.
\<close>

definition dalleCapabilities :: ProviderCapabilities where
  "dalleCapabilities =
     \<lparr> maxImageSize = (1792, 1792),
       supportedSizes = [''1024x1024'', ''1024x1792'', ''1792x1024''],
       supportedFormats = [''png''],
       maxPromptLength = 4000,
       supportsNegativePrompts = False,
       supportsStylePresets = True,
       maxBatchSize = 1,
       cap_costPerImage = 0.04,
       name = None \<rparr>"

definition imagenCapabilities :: ProviderCapabilities where
  "imagenCapabilities =
     \<lparr> maxImageSize = (1536, 1536),
       supportedSizes = [''1:1'', ''16:9'', ''9:16'', ''4:3'', ''3:4''],
       supportedFormats = [''png'', ''jpeg''],
       maxPromptLength = 2048,
       supportsNegativePrompts = True,
       supportsStylePresets = False,
       maxBatchSize = 4,
       cap_costPerImage = 0.03,
       name = None \<rparr>"

definition stableDiffusionCapabilities :: ProviderCapabilities where
  "stableDiffusionCapabilities =
     \<lparr> maxImageSize = (2048, 2048),
       supportedSizes = [''512x512'', ''768x768'', ''1024x1024'', ''1536x1536'', ''2048x2048''],
       supportedFormats = [''png''],
       maxPromptLength = 2000,
       supportsNegativePrompts = True,
       supportsStylePresets = True,
       maxBatchSize = 10,
       cap_costPerImage = 0.02,
       name = None \<rparr>"

subsection \<open>Availability and scoring\<close>

definition isProviderAvailable :: "ProviderManager \<Rightarrow> ImageProvider \<Rightarrow> bool" where
  "isProviderAvailable this p =
     (map_of (providers this) p \<noteq> None \<and> enabled (config this p) = True
      \<and> healthStatus this p = Some True)"

definition speedScores :: "ImageProvider \<Rightarrow> real" where
  "speedScores p =
     (case p of stableDiffusion \<Rightarrow> 0.6 | dalleE3 \<Rightarrow> 0.8 | imagen4 \<Rightarrow> 0.7)"

text \<open>
  \<open>this.healthStatus.get(capabilities.name)\<close>: \<open>undefined\<close> for an absent name (no
  key of the map is \<open>undefined\<close>) and for a name the map does not hold. Likewise
  \<open>speedScores[capabilities.name] || 0.5\<close> is \<open>0.5\<close> for an absent name; every entry
  of the table is truthy.
\<close>

definition healthOf :: "ProviderManager \<Rightarrow> ImageProvider option \<Rightarrow> bool option" where
  "healthOf this n = (case n of None \<Rightarrow> None | Some p \<Rightarrow> healthStatus this p)"

definition calculateProviderScore ::
  "ProviderManager \<Rightarrow> UnifiedImageParams \<Rightarrow> ProviderCapabilities \<Rightarrow> CostEstimate
     \<Rightarrow> ProviderConfig \<Rightarrow> real" where
  "calculateProviderScore this params capabilities cost cfg =
     (let score = 0;
          maxCost = 0.20;
          costScore = max 0 ((maxCost - costPerImage cost) / maxCost);
          score = score + costScore * costWeight cfg;
          qualityScore = 0.5;
          qualityScore = (if 1024 \<le> fst (maxImageSize capabilities)
                          then qualityScore + 0.2 else qualityScore);
          qualityScore = (if supportsNegativePrompts capabilities
                          then qualityScore + 0.1 else qualityScore);
          qualityScore = (if supportsStylePresets capabilities
                          then qualityScore + 0.1 else qualityScore);
          qualityScore = (if 2000 \<le> maxPromptLength capabilities
                          then qualityScore + 0.1 else qualityScore);
          score = score + min qualityScore 1.0 * qualityWeight cfg;
          speedScore = (case name capabilities of
                          None \<Rightarrow> 0.5
                        | Some n \<Rightarrow> speedScores n);
          score = score + speedScore * speedWeight cfg;
          score = score + priority cfg * 0.1;
          score = (if healthOf this (name capabilities) \<noteq> Some True
                   then score * 0.5 else score)
      in min score 1.0)"

definition generateSelectionReason ::
  "real \<Rightarrow> CostEstimate \<Rightarrow> ProviderCapabilities \<Rightarrow> string" where
  "generateSelectionReason score cost capabilities =
     (if 0.8 < score then ''Optimal cost/quality balance''
      else if costPerImage cost < 0.05 then ''Best cost efficiency''
      else if 1024 \<le> fst (maxImageSize capabilities) then ''High quality capabilities''
      else ''Available and suitable'')"

record candidate =
  cand_provider :: ImageProvider
  cand_score :: real
  cand_reason :: string
  cand_estimatedCost :: real

fun evaluateLoop ::
  "ProviderManager \<Rightarrow> UnifiedImageParams \<Rightarrow> (ImageProvider \<times> BaseImageProvider) list
     \<Rightarrow> candidate list" where
  "evaluateLoop this params [] = []"
| "evaluateLoop this params ((providerName, prov) # rest) =
     (if \<not> isProviderAvailable this providerName then evaluateLoop this params rest
      else if \<not> validateParams prov params then evaluateLoop this params rest
      else
        (let capabilities = getCapabilities prov;
             costEstimate = estimateCost prov params;
             cfg = config this providerName;
             score = calculateProviderScore this params capabilities costEstimate cfg
         in \<lparr> cand_provider = providerName,
              cand_score = score,
              cand_reason = generateSelectionReason score costEstimate capabilities,
              cand_estimatedCost = totalCost costEstimate \<rparr>
            # evaluateLoop this params rest))"

definition evaluateProviders :: "ProviderManager \<Rightarrow> UnifiedImageParams \<Rightarrow> candidate list" where
  "evaluateProviders this params = evaluateLoop this params (providers this)"

subsection \<open>Selection\<close>

text \<open>
  \<open>Array.prototype.sort\<close> is a stable sort. For a comparator that orders by a key
  the stable sort is unique, and insertion computes it: each element, from the last
  to the first, goes before the first element it does not have to follow.
\<close>

fun js_insert :: "('a \<Rightarrow> 'a \<Rightarrow> real) \<Rightarrow> 'a \<Rightarrow> 'a list \<Rightarrow> 'a list" where
  "js_insert cmp x [] = [x]"
| "js_insert cmp x (y # ys) =
     (if cmp x y \<le> 0 then x # y # ys else y # js_insert cmp x ys)"

definition js_sort :: "('a \<Rightarrow> 'a \<Rightarrow> real) \<Rightarrow> 'a list \<Rightarrow> 'a list" where
  "js_sort cmp xs = foldr (js_insert cmp) xs []"

definition newError :: "string \<Rightarrow> js_error" where
  "newError msg = \<lparr> message = msg, response = None \<rparr>"

text \<open>
  The first branch of \<open>selectProvider\<close>: the selection for a provider the request
  names, when it is available and validates the request.
\<close>

definition userSpecified ::
  "ProviderManager \<Rightarrow> UnifiedImageParams \<Rightarrow> ProviderSelection option" where
  "userSpecified this params =
     (case provider params of
        None \<Rightarrow> None
      | Some p \<Rightarrow>
          if isProviderAvailable this p then
            (case map_of (providers this) p of
               None \<Rightarrow> None
             | Some prov \<Rightarrow>
                 if validateParams prov params then
                   Some \<lparr> sel_provider = p,
                          reason = ''User specified'',
                          estimatedCost = totalCost (estimateCost prov params),
                          confidence = 1.0 \<rparr>
                 else None)
          else None)"

text \<open>
  \<open>selectProvider\<close> returns the selection or the error thrown, and with it the
  providers that \<open>calculateProviderScore\<close> was run for, in order.
\<close>

definition selectProvider ::
  "ProviderManager \<Rightarrow> UnifiedImageParams
     \<Rightarrow> (js_error + ProviderSelection) \<times> ImageProvider list" where
  "selectProvider this params =
     (case userSpecified this params of
        Some selection \<Rightarrow> (Inr selection, [])
      | None \<Rightarrow>
          (let candidates = evaluateProviders this params;
               scored = map cand_provider candidates
           in if length candidates = 0
              then (Inl (newError ''No suitable providers available''), scored)
              else
                (case js_sort (\<lambda>a b. cand_score b - cand_score a) candidates of
                   [] \<Rightarrow> (Inl (newError ''Cannot read properties of undefined''), scored)
                 | best # _ \<Rightarrow>
                     (Inr \<lparr> sel_provider = cand_provider best,
                            reason = cand_reason best,
                            estimatedCost = cand_estimatedCost best,
                            confidence = cand_score best \<rparr>, scored))))"

subsection \<open>Fallback\<close>

definition getFallbackProviders :: "ProviderManager \<Rightarrow> ImageProvider \<Rightarrow> ImageProvider list" where
  "getFallbackProviders this excludeProvider =
     (let allProviders = [dalleE3, imagen4, stableDiffusion]
      in js_sort (\<lambda>a b. priority (config this b) - priority (config this a))
           (filter (\<lambda>p. p \<noteq> excludeProvider \<and> map_of (providers this) p \<noteq> None)
              allProviders))"

text \<open>
  An attempt is a call of an adapter's \<open>generateImage\<close>: the adapter and what the call
  returned or threw.
\<close>

type_synonym attempt = "ImageProvider \<times> (js_error + ImageResult)"

definition lastErrorMessage :: "js_error option \<Rightarrow> string" where
  "lastErrorMessage lastError =
     (case lastError of None \<Rightarrow> ''undefined'' | Some e \<Rightarrow> message e)"

fun fallbackLoop ::
  "ProviderManager \<Rightarrow> UnifiedImageParams \<Rightarrow> ImageProvider list \<Rightarrow> js_error option
     \<Rightarrow> attempt list \<Rightarrow> (js_error + ImageResult) \<times> attempt list" where
  "fallbackLoop this params [] lastError attempts =
     (Inl (newError (''All providers failed. Last error: '' @ lastErrorMessage lastError)),
      attempts)"
| "fallbackLoop this params (fallbackName # rest) lastError attempts =
     (case map_of (providers this) fallbackName of
        None \<Rightarrow> fallbackLoop this params rest lastError attempts
      | Some prov \<Rightarrow>
          if \<not> isProviderAvailable this fallbackName
          then fallbackLoop this params rest lastError attempts
          else if \<not> validateParams prov params
          then fallbackLoop this params rest lastError attempts
          else
            (case generateImage prov params of
               Inr result \<Rightarrow> (Inr result, attempts @ [(fallbackName, Inr result)])
             | Inl error \<Rightarrow>
                 fallbackLoop this params rest (Some error)
                   (attempts @ [(fallbackName, Inl error)])))"

definition generateWithFallback ::
  "ProviderManager \<Rightarrow> BaseImageProvider \<Rightarrow> UnifiedImageParams
     \<Rightarrow> (js_error + ImageResult) \<times> attempt list" where
  "generateWithFallback this primaryProvider params =
     (case generateImage primaryProvider params of
        Inr result \<Rightarrow> (Inr result, [(getName primaryProvider, Inr result)])
      | Inl error \<Rightarrow>
          fallbackLoop this params (getFallbackProviders this (getName primaryProvider))
            (Some error) [(getName primaryProvider, Inl error)])"

text \<open>
  Vocabulary for the walk of the fallback list: whether the adapter registered under a
  name validates the request, the outcome of its call, whether that call throws, and
  whether the loop attempts it (available and validating) rather than skips it.
\<close>

definition adapterValidates :: "ProviderManager \<Rightarrow> UnifiedImageParams \<Rightarrow> ImageProvider \<Rightarrow> bool" where
  "adapterValidates this params p =
     (case map_of (providers this) p of None \<Rightarrow> False | Some a \<Rightarrow> validateParams a params)"

definition adapterCall ::
  "ProviderManager \<Rightarrow> UnifiedImageParams \<Rightarrow> ImageProvider \<Rightarrow> (js_error + ImageResult) option" where
  "adapterCall this params p =
     (case map_of (providers this) p of None \<Rightarrow> None | Some a \<Rightarrow> Some (generateImage a params))"

definition callFails :: "ProviderManager \<Rightarrow> UnifiedImageParams \<Rightarrow> ImageProvider \<Rightarrow> bool" where
  "callFails this params p =
     (case adapterCall this params p of Some (Inl e) \<Rightarrow> True | _ \<Rightarrow> False)"

definition eligible :: "ProviderManager \<Rightarrow> UnifiedImageParams \<Rightarrow> ImageProvider \<Rightarrow> bool" where
  "eligible this params p = (isProviderAvailable this p \<and> adapterValidates this params p)"

subsection \<open>Metrics (src/backend/src/utils/redis.ts and recordSuccess, recordFailure)\<close>

text \<open>
  A metric event as \<open>recordSuccess\<close> and \<open>recordFailure\<close> build it; \<open>m_cost\<close> is absent
  from a failure's. The provider of a failure is \<open>params.provider || 'unknown'\<close>.
\<close>

record metrics =
  m_provider :: string
  success :: bool
  duration :: int
  m_cost :: "real option"
  timestamp :: int

text \<open>
  The Redis client: whether \<open>setEx\<close> throws, and the entries written so far (key,
  expiration in seconds, value). A key \<open>metrics:${provider}:${Date.now()}\<close> is the text
  before the time and the time.
\<close>

record RedisClient =
  setExThrows :: bool
  entries :: "((string \<times> int) \<times> int \<times> metrics) list"

text \<open>\<open>CacheService.set\<close> catches what the client throws and answers \<open>false\<close>.\<close>

definition cache_set ::
  "RedisClient \<Rightarrow> string \<times> int \<Rightarrow> metrics \<Rightarrow> int \<Rightarrow> bool \<times> RedisClient" where
  "cache_set redisClient key val ttl =
     (if setExThrows redisClient then (False, redisClient)
      else (True, redisClient \<lparr> entries := entries redisClient @ [(key, ttl, val)] \<rparr>))"

definition recordSuccess ::
  "RedisClient \<Rightarrow> int \<Rightarrow> ImageProvider \<Rightarrow> int \<Rightarrow> real \<Rightarrow> RedisClient" where
  "recordSuccess redisClient now p d c =
     (let m = \<lparr> m_provider = providerString p, success = True, duration = d,
                m_cost = Some c, timestamp = now \<rparr>
      in snd (cache_set redisClient (''metrics:'' @ providerString p @ '':'', now) m 86400))"

definition recordFailure ::
  "RedisClient \<Rightarrow> int \<Rightarrow> string \<Rightarrow> int \<Rightarrow> RedisClient" where
  "recordFailure redisClient now p d =
     (let m = \<lparr> m_provider = p, success = False, duration = d,
                m_cost = None, timestamp = now \<rparr>
      in snd (cache_set redisClient (''metrics:'' @ p @ '':'', now) m 86400))"

subsection \<open>generateImage of the manager\<close>

text \<open>
  The request's result: the value returned or the error thrown, the providers scored,
  the adapter attempts in order, and the Redis client afterwards. The clock is read at
  the start (\<open>startTime\<close>) and when the metric is recorded (\<open>now\<close>).
\<close>

record request_result =
  outcome :: "js_error + ImageResult"
  scored :: "ImageProvider list"
  attempts :: "attempt list"
  redis :: RedisClient

definition failRequest ::
  "RedisClient \<Rightarrow> int \<Rightarrow> int \<Rightarrow> UnifiedImageParams \<Rightarrow> js_error \<Rightarrow> ImageProvider list
     \<Rightarrow> attempt list \<Rightarrow> request_result" where
  "failRequest redisClient startTime now params error sc att =
     \<lparr> outcome = Inl error, scored = sc, attempts = att,
       redis = recordFailure redisClient now
                 (case provider params of None \<Rightarrow> ''unknown'' | Some p \<Rightarrow> providerString p)
                 (now - startTime) \<rparr>"

definition ProviderManager_generateImage ::
  "ProviderManager \<Rightarrow> RedisClient \<Rightarrow> int \<Rightarrow> int \<Rightarrow> UnifiedImageParams \<Rightarrow> request_result" where
  "ProviderManager_generateImage this redisClient startTime now params =
     (case selectProvider this params of
        (Inl error, sc) \<Rightarrow> failRequest redisClient startTime now params error sc []
      | (Inr selection, sc) \<Rightarrow>
          (case map_of (providers this) (sel_provider selection) of
             None \<Rightarrow>
               failRequest redisClient startTime now params
                 (newError (''Provider '' @ providerString (sel_provider selection)
                            @ '' not available'')) sc []
           | Some prov \<Rightarrow>
               (case generateWithFallback this prov params of
                  (Inl error, att) \<Rightarrow> failRequest redisClient startTime now params error sc att
                | (Inr result, att) \<Rightarrow>
                    \<lparr> outcome = Inr result, scored = sc, attempts = att,
                      redis = recordSuccess redisClient now (sel_provider selection)
                                (now - startTime) (metadata_cost result) \<rparr>)))"

subsection \<open>Management, and the managers a process can hold\<close>

definition enableProvider :: "ProviderManager \<Rightarrow> ImageProvider \<Rightarrow> ProviderManager" where
  "enableProvider this p =
     this \<lparr> config := (config this) (p := (config this p) \<lparr> enabled := True \<rparr>) \<rparr>"

definition disableProvider :: "ProviderManager \<Rightarrow> ImageProvider \<Rightarrow> ProviderManager" where
  "disableProvider this p =
     this \<lparr> config := (config this) (p := (config this p) \<lparr> enabled := False \<rparr>) \<rparr>"

text \<open>
  The constructor fills \<open>config\<close> from \<open>initializeDefaultConfig\<close>, whatever adapters
  are registered; afterwards only \<open>enableProvider\<close>, \<open>disableProvider\<close> and the health
  checks change the manager.
\<close>

inductive reachable :: "ProviderManager \<Rightarrow> bool" where
  constructed: "reachable \<lparr> providers = ps, config = initializeDefaultConfig, healthStatus = hs \<rparr>"
| enabled: "reachable this \<Longrightarrow> reachable (enableProvider this p)"
| disabled: "reachable this \<Longrightarrow> reachable (disableProvider this p)"
| healthChecked: "reachable this \<Longrightarrow> reachable (this \<lparr> healthStatus := hs \<rparr>)"

code_pred reachable .

section \<open>Example requests and managers\<close>

definition exampleParams :: UnifiedImageParams where
  "exampleParams =
     \<lparr> prompt = ''a red fox'', negativePrompt = None, width = None, height = None,
       quality = None, style = None, count = None, seed = None, provider = None \<rparr>"

definition exampleCost :: "real \<Rightarrow> CostEstimate" where
  "exampleCost c = \<lparr> totalCost = c, costPerImage = c, currency = ''USD'', breakdown = [] \<rparr>"

definition exampleResult :: "ImageProvider \<Rightarrow> real \<Rightarrow> ImageResult" where
  "exampleResult p c =
     \<lparr> result_id = ''r1'', imageUrl = ''https://img'', thumbnailUrl = ''https://img'',
       metadata_provider = p, metadata_prompt = ''a red fox'',
       metadata_generationTime = 1200, metadata_cost = c \<rparr>"

text \<open>An adapter whose call succeeds, and one whose call throws \<open>msg\<close>.\<close>

definition workingAdapter :: "ImageProvider \<Rightarrow> ProviderCapabilities \<Rightarrow> real \<Rightarrow> BaseImageProvider" where
  "workingAdapter p caps c =
     \<lparr> getName = p, generateImage = (\<lambda>params. Inr (exampleResult p c)),
       validateParams = (\<lambda>params. True), getCapabilities = caps,
       estimateCost = (\<lambda>params. exampleCost c) \<rparr>"

definition failingAdapter :: "ImageProvider \<Rightarrow> ProviderCapabilities \<Rightarrow> real \<Rightarrow> string \<Rightarrow> BaseImageProvider" where
  "failingAdapter p caps c msg =
     \<lparr> getName = p, generateImage = (\<lambda>params. Inl (newError msg)),
       validateParams = (\<lambda>params. True), getCapabilities = caps,
       estimateCost = (\<lambda>params. exampleCost c) \<rparr>"

definition rejectingAdapter :: "ImageProvider \<Rightarrow> ProviderCapabilities \<Rightarrow> real \<Rightarrow> BaseImageProvider" where
  "rejectingAdapter p caps c =
     \<lparr> getName = p, generateImage = (\<lambda>params. Inr (exampleResult p c)),
       validateParams = (\<lambda>params. False), getCapabilities = caps,
       estimateCost = (\<lambda>params. exampleCost c) \<rparr>"

text \<open>
  Adapter A is Stable Diffusion (priority 3) with a call that times out; adapter B is
  Imagen (priority 1), working in \<open>adapterB\<close> and out of quota in \<open>adapterB_down\<close>;
  adapter C is DALL-E (priority 2) and rejects every request in validation.
\<close>

definition adapterA :: BaseImageProvider where
  "adapterA = failingAdapter stableDiffusion stableDiffusionCapabilities 0.02 ''timeout''"

definition adapterB :: BaseImageProvider where
  "adapterB = workingAdapter imagen4 imagenCapabilities 0.03"

definition adapterB_down :: BaseImageProvider where
  "adapterB_down = failingAdapter imagen4 imagenCapabilities 0.03 ''quota exceeded''"

definition adapterC :: BaseImageProvider where
  "adapterC = rejectingAdapter dalleE3 dalleCapabilities 0.04"

definition resultB :: ImageResult where
  "resultB = exampleResult imagen4 0.03"

text \<open>Managers over these adapters, every registered adapter enabled and healthy.\<close>

definition managerAB :: ProviderManager where
  "managerAB =
     \<lparr> providers = [(imagen4, adapterB), (stableDiffusion, adapterA)],
       config = initializeDefaultConfig,
       healthStatus = [imagen4 \<mapsto> True, stableDiffusion \<mapsto> True] \<rparr>"

definition managerABC :: ProviderManager where
  "managerABC =
     \<lparr> providers = [(dalleE3, adapterC), (imagen4, adapterB), (stableDiffusion, adapterA)],
       config = initializeDefaultConfig,
       healthStatus = [dalleE3 \<mapsto> True, imagen4 \<mapsto> True, stableDiffusion \<mapsto> True] \<rparr>"

definition managerDown :: ProviderManager where
  "managerDown =
     \<lparr> providers = [(imagen4, adapterB_down), (stableDiffusion, adapterA)],
       config = initializeDefaultConfig,
       healthStatus = [imagen4 \<mapsto> True, stableDiffusion \<mapsto> True] \<rparr>"

text \<open>
  Two adapters with the same capabilities, cost and configuration, for a tie of scores.
\<close>

definition managerTie :: ProviderManager where
  "managerTie =
     \<lparr> providers = [(imagen4, adapterB),
                    (dalleE3, workingAdapter dalleE3 imagenCapabilities 0.03)],
       config = (\<lambda>p. defaultConfig),
       healthStatus = [imagen4 \<mapsto> True, dalleE3 \<mapsto> True] \<rparr>"

definition explicitParams :: "ImageProvider \<Rightarrow> UnifiedImageParams" where
  "explicitParams p = exampleParams \<lparr> provider := Some p \<rparr>"

definition failingRedis :: RedisClient where
  "failingRedis = \<lparr> setExThrows = True, entries = [] \<rparr>"

definition emptyRedis :: RedisClient where
  "emptyRedis = \<lparr> setExThrows = False, entries = [] \<rparr>"


text \<open>
  Failures of a remote call by HTTP status, with or without a \<open>retry-after\<close> header,
  and two remote operations given by their outcome at each attempt.
\<close>

definition httpError :: "int \<Rightarrow> string option \<Rightarrow> js_error" where
  "httpError st hint =
     \<lparr> message = ''Request failed'',
       response = Some \<lparr> status = st,
                         headers = (case hint of None \<Rightarrow> Map.empty
                                    | Some v \<Rightarrow> [''retry-after'' \<mapsto> v]),
                         data_error_message = None \<rparr> \<rparr>"

definition flakyOperation :: "int \<Rightarrow> js_error + string" where
  "flakyOperation k =
     (if k = 1 then Inl (httpError 429 (Some ''30''))
      else if k = 2 then Inl (httpError 503 None)
      else if k = 3 then Inl (httpError 429 None)
      else Inl (httpError 400 None))"



section \<open>Properties of the size standardisation\<close>

lemma roundTo64_dvd: "64 dvd roundTo64 v"
  by (simp add: roundTo64_def)

lemma roundTo64_clamped:
  "256 \<le> roundTo64 (max 256 (min 2048 v)) \<and> roundTo64 (max 256 (min 2048 v)) \<le> 2048"
proof -
  define u where "u = max 256 (min 2048 v)"
  have lo: "4 \<le> u / 64" and hi: "u / 64 \<le> 32"
    by (simp_all add: u_def max_def min_def)
  have "round (4::real) \<le> round (u / 64)"
    using lo by (rule round_mono)
  moreover have "round (u / 64) \<le> round (32::real)"
    using hi by (rule round_mono)
  ultimately show ?thesis
    by (simp add: roundTo64_def u_def [symmetric])
qed

lemma standardize_fst:
  "fst (standardizeImageSize w h) =
     (case w of None \<Rightarrow> 1024
      | Some v \<Rightarrow> if v = 0 then 1024 else roundTo64 (max 256 (min 2048 v)))"
  by (simp add: standardizeImageSize_def Let_def)

lemma standardize_snd:
  "snd (standardizeImageSize w h) =
     (case h of None \<Rightarrow> 1024
      | Some v \<Rightarrow> if v = 0 then 1024 else roundTo64 (max 256 (min 2048 v)))"
  by (simp add: standardizeImageSize_def Let_def)

lemma standardize_fst_ok:
  "64 dvd fst (standardizeImageSize w h) \<and> 256 \<le> fst (standardizeImageSize w h)
   \<and> fst (standardizeImageSize w h) \<le> 2048"
  using roundTo64_clamped roundTo64_dvd
  by (auto simp: standardize_fst split: option.splits)

lemma standardize_snd_ok:
  "64 dvd snd (standardizeImageSize w h) \<and> 256 \<le> snd (standardizeImageSize w h)
   \<and> snd (standardizeImageSize w h) \<le> 2048"
  using roundTo64_clamped roundTo64_dvd
  by (auto simp: standardize_snd split: option.splits)

lemma roundTo64_900: "roundTo64 900 = 896"
  by (simp add: roundTo64_def round_def)

text \<open>
  C10. For every input, absent dimensions included, \<open>standardizeImageSize\<close> returns a
  width and a height that are multiples of 64 within 256..2048; an absent dimension
  becomes 1024; and 900 x 900 becomes 896 x 896. The function takes no adapter bounds.
\<close>

theorem standardizeImageSize_range:
  "64 dvd fst (standardizeImageSize w h) \<and> 256 \<le> fst (standardizeImageSize w h)
   \<and> fst (standardizeImageSize w h) \<le> 2048
   \<and> 64 dvd snd (standardizeImageSize w h) \<and> 256 \<le> snd (standardizeImageSize w h)
   \<and> snd (standardizeImageSize w h) \<le> 2048
   \<and> fst (standardizeImageSize None h) = 1024
   \<and> snd (standardizeImageSize w None) = 1024
   \<and> standardizeImageSize None None = (1024, 1024)
   \<and> standardizeImageSize (Some 900) (Some 900) = (896, 896)"
proof -
  have "standardizeImageSize (Some 900) (Some 900) = (896, 896)"
    by (simp add: standardizeImageSize_def roundTo64_900)
  moreover have "standardizeImageSize None None = (1024, 1024)"
    by (simp add: standardizeImageSize_def)
  ultimately show ?thesis
    using standardize_fst_ok [of w h] standardize_snd_ok [of w h]
    by (simp add: standardize_fst standardize_snd)
qed

theorem standardizeImageSize_range_witness:
  "standardizeImageSize (Some 1000) None = (1024, 1024)
   \<and> 64 dvd fst (standardizeImageSize (Some 300.5) (Some 99999))
   \<and> fst (standardizeImageSize (Some 300.5) (Some 99999)) = 320
   \<and> snd (standardizeImageSize (Some 300.5) (Some 99999)) = 2048"
  using standardizeImageSize_range [of "Some 300.5" "Some 99999"]
  by (simp add: standardizeImageSize_def roundTo64_def round_def)

section \<open>Properties of the prompt truncation\<close>

lemma lastIndexOf_bounds: "- 1 \<le> lastIndexOf s c \<and> lastIndexOf s c < int (length s)"
  by (induction s) (auto simp: Let_def)

lemma lastIndexOf_hit:
  "0 \<le> lastIndexOf s c \<Longrightarrow> s ! nat (lastIndexOf s c) = c"
proof (induction s)
  case Nil
  then show ?case by simp
next
  case (Cons x xs)
  show ?case
  proof (cases "0 \<le> lastIndexOf xs c")
    case True
    then have "nat (lastIndexOf xs c + 1) = Suc (nat (lastIndexOf xs c))" by simp
    with True Cons.IH show ?thesis by (simp add: Let_def)
  next
    case False
    with Cons.prems show ?thesis by (simp add: Let_def split: if_splits)
  qed
qed

lemma lastIndexOf_last:
  "int j < int (length s) \<Longrightarrow> lastIndexOf s c < int j \<Longrightarrow> s ! j \<noteq> c"
proof (induction s arbitrary: j)
  case Nil
  then show ?case by simp
next
  case (Cons x xs)
  show ?case
  proof (cases j)
    case 0
    with Cons.prems show ?thesis by (simp add: Let_def split: if_splits)
  next
    case (Suc k)
    with Cons.prems have "int k < int (length xs)" "lastIndexOf xs c < int k"
      by (auto simp: Let_def split: if_splits)
    then have "xs ! k \<noteq> c" by (rule Cons.IH)
    with Suc show ?thesis by simp
  qed
qed

lemma lastIndexOf_take_nth:
  assumes "i < m" "i < length s" "s ! i = c"
  shows "int i \<le> lastIndexOf (take m s) c"
proof (rule ccontr)
  assume "\<not> int i \<le> lastIndexOf (take m s) c"
  then have "lastIndexOf (take m s) c < int i" by simp
  moreover have "int i < int (length (take m s))" using assms by simp
  ultimately have "take m s ! i \<noteq> c" by (rule lastIndexOf_last[rotated])
  with assms show False by simp
qed

text \<open>
  C8, as the code has it. A prompt within the limit is returned unchanged. A longer one
  is cut to a prefix of at most \<open>m\<close> characters: when one of its first \<open>m\<close>
  characters, the very first apart, is a space, the prefix ends just before the last such
  space, so no word is split; when none is, the prefix is the first \<open>m\<close> characters,
  whatever word that cuts.
\<close>

theorem truncatePrompt_cut:
  "(length s \<le> m \<longrightarrow> truncatePrompt s m = s)
   \<and> (m < length s \<longrightarrow>
        truncatePrompt s m = take (length (truncatePrompt s m)) s
        \<and> length (truncatePrompt s m) \<le> m
        \<and> (if \<exists>i. 0 < i \<and> i < m \<and> s ! i = CHR '' ''
            then 0 < length (truncatePrompt s m) \<and> length (truncatePrompt s m) < m
                 \<and> s ! length (truncatePrompt s m) = CHR '' ''
                 \<and> (\<forall>j. length (truncatePrompt s m) < j \<and> j < m \<longrightarrow> s ! j \<noteq> CHR '' '')
                 \<and> \<not> splitsWord s (length (truncatePrompt s m))
            else truncatePrompt s m = take m s))"
proof (intro conjI impI)
  assume "length s \<le> m"
  then show "truncatePrompt s m = s" by (simp add: truncatePrompt_def)
next
  assume long: "m < length s"
  define t where "t = take m s"
  define l where "l = lastIndexOf t (CHR '' '')"
  have lt: "length t = m" using long by (simp add: t_def)
  have lb: "l < int m" using lastIndexOf_bounds [of t "CHR '' ''"] lt by (simp add: l_def)
  have nl: "nat l \<le> m" using lb by linarith
  have cut: "take (nat l) t = take (nat l) s"
    using nl by (simp add: t_def min_absorb1)
  have "truncatePrompt s m = (if 0 < l then take (nat l) t else t)"
    using long by (simp add: truncatePrompt_def Let_def t_def [symmetric] l_def [symmetric])
  then have res: "truncatePrompt s m = (if 0 < l then take (nat l) s else take m s)"
    by (simp add: cut) (simp add: t_def)
  have len: "length (truncatePrompt s m) = (if 0 < l then nat l else m)"
    using long nl by (simp add: res min_absorb2)
  show "truncatePrompt s m = take (length (truncatePrompt s m)) s"
    by (simp add: len) (simp add: res)
  show "length (truncatePrompt s m) \<le> m"
    using lb by (auto simp: len)
  show "if \<exists>i. 0 < i \<and> i < m \<and> s ! i = CHR '' ''
        then 0 < length (truncatePrompt s m) \<and> length (truncatePrompt s m) < m
             \<and> s ! length (truncatePrompt s m) = CHR '' ''
             \<and> (\<forall>j. length (truncatePrompt s m) < j \<and> j < m \<longrightarrow> s ! j \<noteq> CHR '' '')
             \<and> \<not> splitsWord s (length (truncatePrompt s m))
        else truncatePrompt s m = take m s"
  proof (cases "\<exists>i. 0 < i \<and> i < m \<and> s ! i = CHR '' ''")
    case True
    then obtain i where i: "0 < i" "i < m" "s ! i = CHR '' ''" by blast
    have "int i \<le> l" unfolding l_def t_def
      using i long by (intro lastIndexOf_take_nth) auto
    with i have pos: "0 < l" by simp
    have hit: "t ! nat l = CHR '' ''"
      using pos lastIndexOf_hit [of t "CHR '' ''"] by (simp add: l_def)
    have nl: "nat l < m" using lb pos by simp
    then have at: "s ! nat l = CHR '' ''" using hit by (simp add: t_def)
    have after: "s ! j \<noteq> CHR '' ''" if "nat l < j" "j < m" for j
    proof -
      have "t ! j \<noteq> CHR '' ''"
        using that lt pos by (intro lastIndexOf_last) (auto simp: l_def [symmetric])
      with that show ?thesis by (simp add: t_def)
    qed
    show ?thesis
      using True pos nl at after by (simp add: len splitsWord_def)
  next
    case False
    have "\<not> 0 < l"
    proof
      assume pos: "0 < l"
      have "t ! nat l = CHR '' ''"
        using pos lastIndexOf_hit [of t "CHR '' ''"] by (simp add: l_def)
      moreover have "nat l < m" using lb pos by simp
      ultimately have "s ! nat l = CHR '' ''" "0 < nat l" "nat l < m"
        using pos by (simp_all add: t_def)
      with False show False by blast
    qed
    then have "truncatePrompt s m = take m s" by (simp add: res)
    with False show ?thesis by (simp only: if_False)
  qed
qed

theorem truncatePrompt_cut_witness:
  "truncatePrompt ''a red fox jumps'' 9 = ''a red''
   \<and> truncatePrompt ''a red fox'' 9 = ''a red fox''
   \<and> \<not> splitsWord ''a red fox jumps'' (length (truncatePrompt ''a red fox jumps'' 9))"
  using truncatePrompt_cut [of "''a red fox jumps''" 9] truncatePrompt_cut [of "''a red fox''" 9]
  by (simp add: truncatePrompt_def splitsWord_def)

text \<open>
  The claim as stated fails for a prompt with no space within the limit: the word is cut
  in the middle.
\<close>

theorem truncatePrompt_splits_word_counterexample:
  "length ''abcdefgh'' > 4 \<and> truncatePrompt ''abcdefgh'' 4 = ''abcd''
   \<and> splitsWord ''abcdefgh'' (length (truncatePrompt ''abcdefgh'' 4))"
  by (simp add: truncatePrompt_def splitsWord_def)

section \<open>Properties of the retry policy\<close>




lemma parseInt_60: "parseInt ''60'' = Num 60"
  by (simp add: parseInt_def digitValue_def isWhiteSpace_def)

lemma retryLoop_success:
  "attempt \<le> M \<Longrightarrow> operation attempt = Inr v \<Longrightarrow>
   retryLoop operation M b attempt sl c = (Inr v, sl, c + 1)"
  by (subst retryLoop.simps) simp




lemma retryLoop_none:
  "M < attempt \<Longrightarrow>
   retryLoop operation M b attempt sl c =
     (Inl \<lparr> message = ''Max retries exceeded'', response = None \<rparr>, sl, c)"
  by (subst retryLoop.simps) simp





lemma parseInt_30: "parseInt ''30'' = Num 30"
  by (simp add: parseInt_def digitValue_def isWhiteSpace_def)

lemma flaky_run:
  "retryWithBackoff flakyOperation 5 1000
     = (Inl (httpError 400 None), [30000, 2000, 60000], 4)"
  by (simp add: retryWithBackoff_def retryLoop.simps flakyOperation_def httpError_def
      mapError_def backoffDelay_def parseInt_30 parseInt_60 Let_def)




section \<open>Properties of the scoring\<close>

lemma costScore_antimono:
  fixes c c' w :: real
  assumes "0 \<le> w" "c' \<le> c"
  shows "max 0 ((0.20 - c) / 0.20) * w \<le> max 0 ((0.20 - c') / 0.20) * w"
proof -
  have "(0.20 - c) / 0.20 \<le> (0.20 - c') / 0.20"
    using assms(2) by (simp add: divide_right_mono)
  then have "max 0 ((0.20 - c) / 0.20) \<le> max 0 ((0.20 - c') / 0.20)"
    by (intro max.mono order_refl)
  then show ?thesis using assms(1) by (rule mult_right_mono)
qed

lemma penalised_sum_mono:
  fixes a a' q s p :: real
  assumes "a \<le> a'"
  shows "min (if h then (0 + a + q + s + p) * 0.5 else 0 + a + q + s + p) 1.0
         \<le> min (if h then (0 + a' + q + s + p) * 0.5 else 0 + a' + q + s + p) 1.0"
proof (rule min.mono)
  show "(if h then (0 + a + q + s + p) * 0.5 else 0 + a + q + s + p)
        \<le> (if h then (0 + a' + q + s + p) * 0.5 else 0 + a' + q + s + p)"
    using assms by (cases h) simp_all
qed simp

lemma score_cost_monotone:
  assumes w: "0 \<le> costWeight cfg" and c: "costPerImage cost' \<le> costPerImage cost"
  shows "calculateProviderScore this params capabilities cost cfg
         \<le> calculateProviderScore this params capabilities cost' cfg"
  unfolding calculateProviderScore_def Let_def
  by (rule penalised_sum_mono) (rule costScore_antimono [OF w c])

lemma reachable_weights:
  "reachable this \<Longrightarrow>
   costWeight (config this p) = costWeight (initializeDefaultConfig p)
   \<and> qualityWeight (config this p) = qualityWeight (initializeDefaultConfig p)
   \<and> speedWeight (config this p) = speedWeight (initializeDefaultConfig p)
   \<and> priority (config this p) = priority (initializeDefaultConfig p)"
  by (induction rule: reachable.induct) (auto simp: enableProvider_def disableProvider_def)

lemma default_costWeight_pos: "0 < costWeight (initializeDefaultConfig p)"
  by (cases p) (simp_all add: initializeDefaultConfig_def defaultConfig_def)

lemma reachable_managerAB: "reachable managerAB"
  unfolding managerAB_def by (rule reachable.constructed)

lemma score_values:
  "calculateProviderScore managerAB exampleParams stableDiffusionCapabilities (exampleCost 0.05)
      (initializeDefaultConfig stableDiffusion) = 0.55"
  "calculateProviderScore managerAB exampleParams stableDiffusionCapabilities (exampleCost 0.02)
      (initializeDefaultConfig stableDiffusion) = 0.595"
  by (simp_all add: calculateProviderScore_def stableDiffusionCapabilities_def exampleCost_def
      initializeDefaultConfig_def defaultConfig_def healthOf_def Let_def)

text \<open>
  C7. For every manager a process can hold and every adapter's configuration in it,
  a lower estimated per-image cost never gives a lower score, everything else fixed.
  The cost weights are those of \<open>initializeDefaultConfig\<close>, all positive; the lemma
  \<open>score_cost_monotone\<close> is the same for any configuration with a non-negative cost
  weight.
\<close>

theorem calculateProviderScore_cost_monotone:
  assumes "reachable this" and "costPerImage cost' \<le> costPerImage cost"
  shows "calculateProviderScore this params capabilities cost (config this p)
         \<le> calculateProviderScore this params capabilities cost' (config this p)"
proof -
  have "0 \<le> costWeight (config this p)"
    using reachable_weights [OF assms(1), of p] default_costWeight_pos [of p] by simp
  then show ?thesis using assms(2) by (rule score_cost_monotone)
qed

theorem calculateProviderScore_cost_monotone_witness:
  "reachable managerAB
   \<and> costPerImage (exampleCost 0.02) \<le> costPerImage (exampleCost 0.05)
   \<and> calculateProviderScore managerAB exampleParams stableDiffusionCapabilities (exampleCost 0.05)
        (config managerAB stableDiffusion)
      \<le> calculateProviderScore managerAB exampleParams stableDiffusionCapabilities
          (exampleCost 0.02) (config managerAB stableDiffusion)"
proof -
  have c: "costPerImage (exampleCost 0.02) \<le> costPerImage (exampleCost 0.05)"
    by (simp add: exampleCost_def)
  from calculateProviderScore_cost_monotone [OF reachable_managerAB c]
  show ?thesis using reachable_managerAB c by simp
qed

text \<open>
  For capabilities without a \<open>name\<close> the health lookup finds nothing: the score is
  the same under every health map.
\<close>

lemma healthOf_None: "healthOf this None = None"
  by (simp add: healthOf_def)

lemma score_without_name:
  assumes "name capabilities = None"
  shows "calculateProviderScore (this \<lparr> healthStatus := hs \<rparr>) params capabilities cost cfg
     = calculateProviderScore this params capabilities cost cfg"
  unfolding calculateProviderScore_def assms healthOf_None by (rule refl)





section \<open>Properties of the fallback chain\<close>

lemma js_insert_conv_insort_key:
  fixes f :: "'a \<Rightarrow> real"
  shows "js_insert (\<lambda>a b. f b - f a) x ys = insort_key (\<lambda>y. - f y) x ys"
  by (induction ys) simp_all

lemma js_sort_conv_sort_key:
  fixes f :: "'a \<Rightarrow> real"
  shows "js_sort (\<lambda>a b. f b - f a) xs = sort_key (\<lambda>y. - f y) xs"
  by (induction xs) (simp_all add: js_sort_def js_insert_conv_insort_key sort_key_def)

lemma ImageProvider_cases: "p = dalleE3 \<or> p = imagen4 \<or> p = stableDiffusion"
  by (cases p) simp_all

lemma allProviders_UNIV: "set [dalleE3, imagen4, stableDiffusion] = UNIV"
  using ImageProvider_cases by auto

lemma getFallbackProviders_set:
  "set (getFallbackProviders this x) = {p. p \<noteq> x \<and> map_of (providers this) p \<noteq> None}"
proof -
  have "set (getFallbackProviders this x) =
      set (filter (\<lambda>p. p \<noteq> x \<and> map_of (providers this) p \<noteq> None)
             [dalleE3, imagen4, stableDiffusion])"
    by (simp only: getFallbackProviders_def Let_def js_sort_conv_sort_key set_sort)
  also have "\<dots> = {p. p \<noteq> x \<and> map_of (providers this) p \<noteq> None}"
    by (simp only: set_filter allProviders_UNIV) simp
  finally show ?thesis .
qed

lemma getFallbackProviders_distinct: "distinct (getFallbackProviders this x)"
  by (simp add: getFallbackProviders_def js_sort_conv_sort_key)

lemma getFallbackProviders_sorted:
  "sorted_wrt (\<lambda>a b. priority (config this b) \<le> priority (config this a))
     (getFallbackProviders this x)"
proof -
  have "sorted (map (\<lambda>p. - priority (config this p)) (getFallbackProviders this x))"
    by (simp add: getFallbackProviders_def js_sort_conv_sort_key)
  then show ?thesis by (simp add: sorted_map)
qed

lemma fallbackLoop_skip:
  "\<not> eligible this params p \<Longrightarrow>
   fallbackLoop this params (p # rest) le att = fallbackLoop this params rest le att"
  by (simp add: eligible_def adapterValidates_def isProviderAvailable_def split: option.splits)

lemma fallbackLoop_fail:
  "eligible this params p \<Longrightarrow> adapterCall this params p = Some (Inl e) \<Longrightarrow>
   fallbackLoop this params (p # rest) le att =
     fallbackLoop this params rest (Some e) (att @ [(p, Inl e)])"
  by (auto simp: eligible_def adapterValidates_def adapterCall_def split: option.splits)

lemma fallbackLoop_success:
  "eligible this params p \<Longrightarrow> adapterCall this params p = Some (Inr r) \<Longrightarrow>
   fallbackLoop this params (p # rest) le att = (Inr r, att @ [(p, Inr r)])"
  by (auto simp: eligible_def adapterValidates_def adapterCall_def split: option.splits)

lemma eligible_call:
  "eligible this params p \<Longrightarrow> \<exists>out. adapterCall this params p = Some out"
  by (simp add: eligible_def adapterValidates_def adapterCall_def split: option.splits)

lemma callFails_iff:
  "callFails this params p \<longleftrightarrow> (\<exists>e. adapterCall this params p = Some (Inl e))"
  by (auto simp: callFails_def split: option.splits sum.splits)

declare fallbackLoop.simps [simp del]

lemma fallbackLoop_Nil:
  "fallbackLoop this params [] le att =
     (Inl (newError (''All providers failed. Last error: '' @ lastErrorMessage le)), att)"
  by (simp add: fallbackLoop.simps)

lemma fallbackLoop_walk:
  "map fst (snd (fallbackLoop this params chain le att)) =
     map fst att @ takeWhile (callFails this params) (filter (eligible this params) chain)
       @ take 1 (dropWhile (callFails this params) (filter (eligible this params) chain))
   \<and> (dropWhile (callFails this params) (filter (eligible this params) chain) = [] \<longrightarrow>
        isl (fst (fallbackLoop this params chain le att)))
   \<and> (\<forall>b bs. dropWhile (callFails this params) (filter (eligible this params) chain) = b # bs \<longrightarrow>
        adapterCall this params b = Some (fst (fallbackLoop this params chain le att))
        \<and> \<not> isl (fst (fallbackLoop this params chain le att)))"
proof (induction chain arbitrary: le att)
  case Nil
  show ?case by (simp add: fallbackLoop_Nil)
next
  case (Cons p rest)
  show ?case
  proof (cases "eligible this params p")
    case False
    have step: "fallbackLoop this params (p # rest) le att = fallbackLoop this params rest le att"
      using False by (rule fallbackLoop_skip)
    show ?thesis unfolding step using Cons.IH [of le att] False by simp
  next
    case True
    then obtain out where out: "adapterCall this params p = Some out"
      using eligible_call by blast
    show ?thesis
    proof (cases out)
      case (Inl e)
      then have f: "callFails this params p" using out by (simp add: callFails_iff)
      have step: "fallbackLoop this params (p # rest) le att =
          fallbackLoop this params rest (Some e) (att @ [(p, Inl e)])"
        using True out Inl by (simp add: fallbackLoop_fail)
      show ?thesis
        unfolding step
        using Cons.IH [of "Some e" "att @ [(p, Inl e)]"] True f by simp
    next
      case (Inr r)
      then have f: "\<not> callFails this params p" using out by (simp add: callFails_iff)
      have step: "fallbackLoop this params (p # rest) le att = (Inr r, att @ [(p, Inr r)])"
        using True out Inr by (simp add: fallbackLoop_success)
      show ?thesis unfolding step using True f out Inr by simp
    qed
  qed
qed

lemma fallbackLoop_failure:
  assumes "fst (fallbackLoop this params chain le att) = Inl err"
    and "\<forall>a \<in> set att. isl (snd a)"
    and "\<exists>p e. last att = (p, Inl e) \<and> le = Some e"
    and "att \<noteq> []"
  shows "\<exists>p e. last (snd (fallbackLoop this params chain le att)) = (p, Inl e)
           \<and> err = newError (''All providers failed. Last error: '' @ message e)
           \<and> snd (fallbackLoop this params chain le att) \<noteq> []
           \<and> (\<forall>a \<in> set (snd (fallbackLoop this params chain le att)). isl (snd a))"
  using assms
proof (induction chain arbitrary: le att)
  case Nil
  then show ?case by (auto simp: fallbackLoop_Nil lastErrorMessage_def)
next
  case (Cons p rest)
  show ?case
  proof (cases "eligible this params p")
    case False
    have step: "fallbackLoop this params (p # rest) le att = fallbackLoop this params rest le att"
      using False by (rule fallbackLoop_skip)
    show ?thesis
      unfolding step using Cons.prems by (intro Cons.IH) (simp_all add: step)
  next
    case True
    then obtain out where out: "adapterCall this params p = Some out"
      using eligible_call by blast
    show ?thesis
    proof (cases out)
      case (Inl e)
      have step: "fallbackLoop this params (p # rest) le att =
          fallbackLoop this params rest (Some e) (att @ [(p, Inl e)])"
        using True out Inl by (simp add: fallbackLoop_fail)
      show ?thesis
        unfolding step
        using Cons.prems by (intro Cons.IH) (simp_all add: step)
    next
      case (Inr r)
      then show ?thesis using True out Cons.prems(1) by (simp add: fallbackLoop_success)
    qed
  qed
qed

lemma generateWithFallback_attempts:
  assumes "generateImage primaryProvider params = Inl e0"
  shows "map fst (snd (generateWithFallback this primaryProvider params)) =
           getName primaryProvider
             # takeWhile (callFails this params)
                 (filter (eligible this params)
                    (getFallbackProviders this (getName primaryProvider)))
             @ take 1 (dropWhile (callFails this params)
                 (filter (eligible this params)
                    (getFallbackProviders this (getName primaryProvider))))
       \<and> (case dropWhile (callFails this params)
                 (filter (eligible this params)
                    (getFallbackProviders this (getName primaryProvider))) of
            [] \<Rightarrow> isl (fst (generateWithFallback this primaryProvider params))
          | b # _ \<Rightarrow>
              adapterCall this params b
                = Some (fst (generateWithFallback this primaryProvider params))
              \<and> \<not> isl (fst (generateWithFallback this primaryProvider params)))"
proof -
  have r: "generateWithFallback this primaryProvider params =
      fallbackLoop this params (getFallbackProviders this (getName primaryProvider)) (Some e0)
        [(getName primaryProvider, Inl e0)]"
    by (simp add: generateWithFallback_def assms)
  show ?thesis
    unfolding r
    using fallbackLoop_walk [of this params "getFallbackProviders this (getName primaryProvider)"
        "Some e0" "[(getName primaryProvider, Inl e0)]"]
    by (simp split: list.splits)
qed

text \<open>
  C2. When the primary adapter's call fails, the fallback list is the registered
  adapters other than the primary, each once, in descending configured priority. The
  loop skips those that are not available or do not validate the request, calls the
  others in that order up to and including the first whose call succeeds, and that
  call's result is the overall result; with no success the result is an error.
\<close>

theorem generateWithFallback_order:
  assumes "generateImage primaryProvider params = Inl e0"
  shows "let chain = getFallbackProviders this (getName primaryProvider);
             tried = filter (eligible this params) chain;
             r = generateWithFallback this primaryProvider params
         in distinct chain
          \<and> set chain = {p. p \<noteq> getName primaryProvider \<and> map_of (providers this) p \<noteq> None}
          \<and> sorted_wrt (\<lambda>a b. priority (config this b) \<le> priority (config this a)) chain
          \<and> map fst (snd r) =
               getName primaryProvider # takeWhile (callFails this params) tried
                 @ take 1 (dropWhile (callFails this params) tried)
          \<and> (case dropWhile (callFails this params) tried of
               [] \<Rightarrow> isl (fst r)
             | b # _ \<Rightarrow> adapterCall this params b = Some (fst r) \<and> \<not> isl (fst r))"
  unfolding Let_def
  using generateWithFallback_attempts [OF assms, of this]
  by (simp add: getFallbackProviders_distinct getFallbackProviders_set
      getFallbackProviders_sorted)

section \<open>Properties of the selection\<close>

lemma js_sort_Cons:
  "js_sort cmp (x # xs) = js_insert cmp x (js_sort cmp xs)"
  by (simp add: js_sort_def)

lemma js_sort_first:
  fixes f :: "'a \<Rightarrow> real"
  assumes "xs \<noteq> []"
  shows "\<exists>best rest before after.
           js_sort (\<lambda>a b. f b - f a) xs = best # rest
         \<and> xs = before @ best # after
         \<and> (\<forall>c \<in> set before. f c < f best)
         \<and> (\<forall>c \<in> set after. f c \<le> f best)"
  using assms
proof (induction xs)
  case Nil
  then show ?case by simp
next
  case (Cons x xs)
  show ?case
  proof (cases "xs = []")
    case True
    have "js_sort (\<lambda>a b. f b - f a) [x] = [x]" by (simp add: js_sort_def)
    then show ?thesis
      unfolding True
      by (intro exI [where x = x] exI [where x = "[]"]) simp
  next
    case False
    from Cons.IH [OF False] obtain b r before after where
      s: "js_sort (\<lambda>a b. f b - f a) xs = b # r" and
      xs: "xs = before @ b # after" and
      lo: "\<forall>c \<in> set before. f c < f b" and
      hi: "\<forall>c \<in> set after. f c \<le> f b"
      by blast
    show ?thesis
    proof (cases "f b \<le> f x")
      case True
      have "\<forall>c \<in> set xs. f c \<le> f x"
        using xs lo hi True by fastforce
      moreover have "js_sort (\<lambda>a b. f b - f a) (x # xs) = x # b # r"
        using True by (simp add: js_sort_Cons s)
      ultimately show ?thesis
        by (intro exI [where x = x] exI [where x = "b # r"] exI [where x = "[]"]
            exI [where x = xs]) simp
    next
      case False
      then have "js_sort (\<lambda>a b. f b - f a) (x # xs) = b # js_insert (\<lambda>a b. f b - f a) x r"
        by (simp add: js_sort_Cons s)
      moreover have "x # xs = (x # before) @ b # after" using xs by simp
      moreover have "\<forall>c \<in> set (x # before). f c < f b" using lo False by simp
      ultimately show ?thesis using hi by blast
    qed
  qed
qed

lemma userSpecified_None: "provider params = None \<Longrightarrow> userSpecified this params = None"
  by (simp add: userSpecified_def)

lemma evaluateLoop_eq:
  "evaluateLoop this params ps =
     map (\<lambda>(n, a).
            \<lparr> cand_provider = n,
              cand_score = calculateProviderScore this params (getCapabilities a)
                             (estimateCost a params) (config this n),
              cand_reason = generateSelectionReason
                              (calculateProviderScore this params (getCapabilities a)
                                 (estimateCost a params) (config this n))
                              (estimateCost a params) (getCapabilities a),
              cand_estimatedCost = totalCost (estimateCost a params) \<rparr>)
         (filter (\<lambda>(n, a). isProviderAvailable this n \<and> validateParams a params) ps)"
  by (induction this params ps rule: evaluateLoop.induct) (simp_all add: Let_def)

lemma evaluateLoop_providers:
  "map cand_provider (evaluateLoop this params ps) =
     map fst (filter (\<lambda>(n, a). isProviderAvailable this n \<and> validateParams a params) ps)"
  by (simp add: evaluateLoop_eq split_def comp_def)

lemma evaluateLoop_scores:
  "c \<in> set (evaluateLoop this params ps) \<Longrightarrow>
   \<exists>a. (cand_provider c, a) \<in> set ps
     \<and> cand_score c = calculateProviderScore this params (getCapabilities a)
         (estimateCost a params) (config this (cand_provider c))"
  by (auto simp: evaluateLoop_eq)

text \<open>
  C6. Without an explicit provider and with at least one candidate, the selected
  provider is a candidate whose score no candidate exceeds, and every candidate
  evaluated before it has a strictly lower score: of equal scores the earliest in
  evaluation order wins. The candidates are the available adapters that validate the
  request, in the order of the registry, each with the score \<open>calculateProviderScore\<close>
  gives it.
\<close>

theorem selectProvider_best_score:
  assumes "provider params = None" and "evaluateProviders this params \<noteq> []"
  shows "\<exists>best before after.
           fst (selectProvider this params) =
             Inr \<lparr> sel_provider = cand_provider best, reason = cand_reason best,
                   estimatedCost = cand_estimatedCost best, confidence = cand_score best \<rparr>
         \<and> evaluateProviders this params = before @ best # after
         \<and> (\<forall>c \<in> set before. cand_score c < cand_score best)
         \<and> (\<forall>c \<in> set after. cand_score c \<le> cand_score best)
         \<and> map cand_provider (evaluateProviders this params) =
             map fst (filter (\<lambda>(n, a). isProviderAvailable this n \<and> validateParams a params)
                        (providers this))
         \<and> (\<forall>c \<in> set (evaluateProviders this params).
               \<exists>a. (cand_provider c, a) \<in> set (providers this)
                 \<and> cand_score c = calculateProviderScore this params (getCapabilities a)
                     (estimateCost a params) (config this (cand_provider c)))"
proof -
  from js_sort_first [OF assms(2), of cand_score]
  obtain best rest before after where
    s: "js_sort (\<lambda>a b. cand_score b - cand_score a) (evaluateProviders this params) = best # rest"
    and split: "evaluateProviders this params = before @ best # after"
    and lo: "\<forall>c \<in> set before. cand_score c < cand_score best"
    and hi: "\<forall>c \<in> set after. cand_score c \<le> cand_score best"
    by blast
  have "fst (selectProvider this params) =
      Inr \<lparr> sel_provider = cand_provider best, reason = cand_reason best,
            estimatedCost = cand_estimatedCost best, confidence = cand_score best \<rparr>"
    using assms(2) by (simp add: selectProvider_def userSpecified_None [OF assms(1)] Let_def s)
  moreover have "map cand_provider (evaluateProviders this params) =
      map fst (filter (\<lambda>(n, a). isProviderAvailable this n \<and> validateParams a params)
                 (providers this))"
    by (simp add: evaluateProviders_def evaluateLoop_providers)
  moreover have "\<forall>c \<in> set (evaluateProviders this params).
      \<exists>a. (cand_provider c, a) \<in> set (providers this)
        \<and> cand_score c = calculateProviderScore this params (getCapabilities a)
            (estimateCost a params) (config this (cand_provider c))"
    using evaluateLoop_scores [of _ this params "providers this"]
    by (simp add: evaluateProviders_def)
  ultimately show ?thesis using split lo hi by blast
qed

lemma userSpecified_Some:
  assumes "provider params = Some p" "isProviderAvailable this p"
    "map_of (providers this) p = Some prov" "validateParams prov params"
  shows "userSpecified this params =
     Some \<lparr> sel_provider = p, reason = ''User specified'',
            estimatedCost = totalCost (estimateCost prov params), confidence = 1 \<rparr>"
  using assms by (simp add: userSpecified_def)

lemma userSpecified_None_iff:
  "userSpecified this params = None \<longleftrightarrow>
     provider params = None
     \<or> (\<exists>q. provider params = Some q
            \<and> (\<not> isProviderAvailable this q \<or> \<not> adapterValidates this params q))"
  by (auto simp: userSpecified_def adapterValidates_def split: option.splits)

lemma selectProvider_scored:
  "snd (selectProvider this params) \<noteq> [] \<Longrightarrow> userSpecified this params = None"
  by (cases "userSpecified this params") (simp_all add: selectProvider_def)

lemma generateWithFallback_primary_ok:
  "generateImage prov params = Inr result \<Longrightarrow>
   generateWithFallback this prov params = (Inr result, [(getName prov, Inr result)])"
  by (simp add: generateWithFallback_def)

text \<open>
  C3. A request that names a provider which is available and validates it selects that
  provider with confidence 1 and scores nobody; when that adapter's call succeeds, it
  is the only adapter call of the request and its result is the request's. If any
  provider was scored, the request named none, or the one it named is unavailable or
  does not validate.
\<close>

theorem explicit_provider_selected:
  "(provider params = Some p \<and> isProviderAvailable this p
      \<and> map_of (providers this) p = Some prov \<and> validateParams prov params \<longrightarrow>
      selectProvider this params =
        (Inr \<lparr> sel_provider = p, reason = ''User specified'',
               estimatedCost = totalCost (estimateCost prov params), confidence = 1 \<rparr>, [])
      \<and> (\<forall>result. generateImage prov params = Inr result \<longrightarrow>
            outcome (ProviderManager_generateImage this redisClient startTime now params)
              = Inr result
          \<and> attempts (ProviderManager_generateImage this redisClient startTime now params)
              = [(getName prov, Inr result)]
          \<and> scored (ProviderManager_generateImage this redisClient startTime now params) = []))
   \<and> (snd (selectProvider this params) \<noteq> [] \<longrightarrow>
        provider params = None
        \<or> (\<exists>q. provider params = Some q
               \<and> (\<not> isProviderAvailable this q \<or> \<not> adapterValidates this params q)))"
proof (intro conjI impI allI)
  assume a: "provider params = Some p \<and> isProviderAvailable this p
      \<and> map_of (providers this) p = Some prov \<and> validateParams prov params"
  then have u: "userSpecified this params =
     Some \<lparr> sel_provider = p, reason = ''User specified'',
            estimatedCost = totalCost (estimateCost prov params), confidence = 1 \<rparr>"
    by (simp add: userSpecified_Some)
  then show sel: "selectProvider this params =
        (Inr \<lparr> sel_provider = p, reason = ''User specified'',
               estimatedCost = totalCost (estimateCost prov params), confidence = 1 \<rparr>, [])"
    by (simp add: selectProvider_def)
  fix result
  assume g: "generateImage prov params = Inr result"
  have m: "map_of (providers this) p = Some prov" using a by simp
  show "outcome (ProviderManager_generateImage this redisClient startTime now params) = Inr result"
    by (simp add: ProviderManager_generateImage_def sel m generateWithFallback_primary_ok [OF g])
  show "attempts (ProviderManager_generateImage this redisClient startTime now params)
              = [(getName prov, Inr result)]"
    by (simp add: ProviderManager_generateImage_def sel m generateWithFallback_primary_ok [OF g])
  show "scored (ProviderManager_generateImage this redisClient startTime now params) = []"
    by (simp add: ProviderManager_generateImage_def sel m generateWithFallback_primary_ok [OF g])
next
  assume "snd (selectProvider this params) \<noteq> []"
  then have "userSpecified this params = None" by (rule selectProvider_scored)
  then show "provider params = None
        \<or> (\<exists>q. provider params = Some q
               \<and> (\<not> isProviderAvailable this q \<or> \<not> adapterValidates this params q))"
    by (simp add: userSpecified_None_iff)
qed

section \<open>Properties of a whole request\<close>

lemma generateWithFallback_failure:
  assumes "fst (generateWithFallback this prim params) = Inl err"
  shows "\<exists>p e. last (snd (generateWithFallback this prim params)) = (p, Inl e)
           \<and> err = newError (''All providers failed. Last error: '' @ message e)
           \<and> snd (generateWithFallback this prim params) \<noteq> []
           \<and> (\<forall>a \<in> set (snd (generateWithFallback this prim params)). isl (snd a))"
proof (cases "generateImage prim params")
  case (Inr result)
  with assms show ?thesis by (simp add: generateWithFallback_def)
next
  case (Inl e0)
  have r: "generateWithFallback this prim params =
      fallbackLoop this params (getFallbackProviders this (getName prim)) (Some e0)
        [(getName prim, Inl e0)]"
    by (simp add: generateWithFallback_def Inl)
  show ?thesis
    unfolding r by (rule fallbackLoop_failure) (use assms r in simp_all)
qed

lemma generateImage_request_shape:
  "\<exists>out sc att psel. \<forall>rc st t.
      ProviderManager_generateImage this rc st t params =
        (case out of
           Inl e \<Rightarrow> failRequest rc st t params e sc att
         | Inr result \<Rightarrow>
             \<lparr> outcome = Inr result, scored = sc, attempts = att,
               redis = recordSuccess rc t psel (t - st) (metadata_cost result) \<rparr>)
      \<and> (att \<noteq> [] \<longrightarrow> (\<exists>prim. (out, att) = generateWithFallback this prim params))"
proof (cases "selectProvider this params")
  case (Pair sel sc)
  show ?thesis
  proof (cases sel)
    case (Inl e)
    show ?thesis
      by (rule exI [where x = "Inl e"], rule exI [where x = sc], rule exI [where x = "[]"])
        (simp add: ProviderManager_generateImage_def Pair Inl)
  next
    case (Inr selection)
    show ?thesis
    proof (cases "map_of (providers this) (sel_provider selection)")
      case None
      show ?thesis
        by (rule exI [where x = "Inl (newError (''Provider '' @ providerString (sel_provider selection)
                            @ '' not available''))"], rule exI [where x = sc],
            rule exI [where x = "[]"])
          (simp add: ProviderManager_generateImage_def Pair Inr None)
    next
      case (Some prov)
      obtain out att where g: "generateWithFallback this prov params = (out, att)"
        by (cases "generateWithFallback this prov params")
      show ?thesis
      proof (cases out)
        case (Inl e)
        show ?thesis
          by (rule exI [where x = "Inl e"], rule exI [where x = sc], rule exI [where x = att])
            (auto simp: ProviderManager_generateImage_def Pair Inr Some g Inl intro: exI [where x = prov])
      next
        case r: (Inr result)
        show ?thesis
          by (rule exI [where x = "Inr result"], rule exI [where x = sc], rule exI [where x = att],
              rule exI [where x = "sel_provider selection"])
            (auto simp: ProviderManager_generateImage_def Pair Inr Some g r intro: exI [where x = prov])
      qed
    qed
  qed
qed

lemma failRequest_simps:
  "outcome (failRequest rc st t params e sc att) = Inl e"
  "scored (failRequest rc st t params e sc att) = sc"
  "attempts (failRequest rc st t params e sc att) = att"
  by (simp_all add: failRequest_def)

lemma failRequest_entries:
  "entries (redis (failRequest rc st t params e sc att)) =
     (if setExThrows rc then entries rc
      else entries rc @
        [((''metrics:'' @ (case provider params of None \<Rightarrow> ''unknown'' | Some p \<Rightarrow> providerString p)
             @ '':'', t), 86400,
          \<lparr> m_provider = (case provider params of None \<Rightarrow> ''unknown'' | Some p \<Rightarrow> providerString p),
            success = False, duration = t - st, m_cost = None, timestamp = t \<rparr>)])"
  by (simp add: failRequest_def recordFailure_def cache_set_def Let_def)

lemma recordSuccess_entries:
  "entries (recordSuccess rc t p d c) =
     (if setExThrows rc then entries rc
      else entries rc @
        [((''metrics:'' @ providerString p @ '':'', t), 86400,
          \<lparr> m_provider = providerString p, success = True, duration = d, m_cost = Some c,
            timestamp = t \<rparr>)])"
  by (simp add: recordSuccess_def cache_set_def Let_def)

text \<open>
  C4. When the primary adapter's call fails and so does the call of every fallback
  that is attempted, every one of them has been attempted and the single error thrown
  reads \<open>All providers failed. Last error: \<close> followed by the message of the last
  adapter error. A request that fails after at least one adapter attempt fails with
  exactly that error, and none of its attempts succeeded.
\<close>

theorem all_candidates_fail_last_error:
  "(generateImage primaryProvider params = Inl e0
      \<and> (\<forall>p \<in> set (filter (eligible this params)
                       (getFallbackProviders this (getName primaryProvider))).
            callFails this params p) \<longrightarrow>
      (\<exists>p e. last (snd (generateWithFallback this primaryProvider params)) = (p, Inl e)
            \<and> fst (generateWithFallback this primaryProvider params)
                = Inl (newError (''All providers failed. Last error: '' @ message e))
            \<and> map fst (snd (generateWithFallback this primaryProvider params))
                = getName primaryProvider
                    # filter (eligible this params)
                        (getFallbackProviders this (getName primaryProvider))))
   \<and> (outcome (ProviderManager_generateImage this redisClient startTime now params) = Inl err
      \<and> attempts (ProviderManager_generateImage this redisClient startTime now params) \<noteq> [] \<longrightarrow>
      (\<exists>p e. last (attempts (ProviderManager_generateImage this redisClient startTime now params))
                = (p, Inl e)
            \<and> err = newError (''All providers failed. Last error: '' @ message e)
            \<and> (\<forall>a \<in> set (attempts
                             (ProviderManager_generateImage this redisClient startTime now params)).
                  isl (snd a))))"
proof (intro conjI impI)
  assume a: "generateImage primaryProvider params = Inl e0
      \<and> (\<forall>p \<in> set (filter (eligible this params)
                       (getFallbackProviders this (getName primaryProvider))).
            callFails this params p)"
  let ?r = "generateWithFallback this primaryProvider params"
  let ?tried = "filter (eligible this params) (getFallbackProviders this (getName primaryProvider))"
  have tw: "takeWhile (callFails this params) ?tried = ?tried"
    and dw: "dropWhile (callFails this params) ?tried = []"
    using a by simp_all
  from generateWithFallback_attempts [of primaryProvider params e0 this] a
  have names: "map fst (snd ?r) = getName primaryProvider # ?tried" and fails: "isl (fst ?r)"
    unfolding tw dw by simp_all
  then obtain err' where e: "fst ?r = Inl err'" by (cases "fst ?r") simp_all
  from generateWithFallback_failure [OF e] names e
  show "\<exists>p e. last (snd ?r) = (p, Inl e)
            \<and> fst ?r = Inl (newError (''All providers failed. Last error: '' @ message e))
            \<and> map fst (snd ?r) = getName primaryProvider # ?tried"
    by auto
next
  let ?R = "ProviderManager_generateImage this redisClient startTime now params"
  assume a: "outcome ?R = Inl err \<and> attempts ?R \<noteq> []"
  obtain out sc att psel where
    shape: "?R = (case out of
           Inl e \<Rightarrow> failRequest redisClient startTime now params e sc att
         | Inr result \<Rightarrow>
             \<lparr> outcome = Inr result, scored = sc, attempts = att,
               redis = recordSuccess redisClient now psel (now - startTime) (metadata_cost result) \<rparr>)"
    and gen: "att \<noteq> [] \<longrightarrow> (\<exists>prim. (out, att) = generateWithFallback this prim params)"
    using generateImage_request_shape [of this params] by blast
  have o: "outcome ?R = out" and at: "attempts ?R = att"
    unfolding shape by (cases out; simp add: failRequest_simps)+
  from a o at have "out = Inl err" "att \<noteq> []" by simp_all
  with gen obtain prim where g: "generateWithFallback this prim params = (Inl err, att)"
    by auto
  then have "fst (generateWithFallback this prim params) = Inl err" by simp
  from generateWithFallback_failure [OF this]
  show "\<exists>p e. last (attempts ?R) = (p, Inl e)
            \<and> err = newError (''All providers failed. Last error: '' @ message e)
            \<and> (\<forall>a \<in> set (attempts ?R). isl (snd a))"
    unfolding at using g by auto
qed

text \<open>
  C9, as the code has it. A request writes one metric event, not one per attempt: none
  when the cache write throws, otherwise one entry kept for 86400 seconds whose success
  flag is the request's, whose duration is the time since the request started, and
  whose cost is the result's cost when the request succeeded and absent when it
  failed. The outcome and the attempts of the request do not depend on the cache or
  the clock.
\<close>

theorem one_metric_per_request:
  "(setExThrows redisClient \<longrightarrow>
      entries (redis (ProviderManager_generateImage this redisClient startTime now params))
        = entries redisClient)
   \<and> (\<not> setExThrows redisClient \<longrightarrow>
      (\<exists>key m.
          entries (redis (ProviderManager_generateImage this redisClient startTime now params))
            = entries redisClient @ [(key, 86400, m)]
        \<and> success m
            = (\<not> isl (outcome (ProviderManager_generateImage this redisClient startTime now params)))
        \<and> duration m = now - startTime
        \<and> m_cost m
            = (case outcome (ProviderManager_generateImage this redisClient startTime now params) of
                 Inl e \<Rightarrow> None | Inr result \<Rightarrow> Some (metadata_cost result))))
   \<and> outcome (ProviderManager_generateImage this redisClient startTime now params)
       = outcome (ProviderManager_generateImage this redisClient' startTime' now' params)
   \<and> attempts (ProviderManager_generateImage this redisClient startTime now params)
       = attempts (ProviderManager_generateImage this redisClient' startTime' now' params)"
proof -
  obtain out sc att psel where
    shape: "\<And>rc st t. ProviderManager_generateImage this rc st t params =
        (case out of
           Inl e \<Rightarrow> failRequest rc st t params e sc att
         | Inr result \<Rightarrow>
             \<lparr> outcome = Inr result, scored = sc, attempts = att,
               redis = recordSuccess rc t psel (t - st) (metadata_cost result) \<rparr>)"
    using generateImage_request_shape [of this params] by blast
  show ?thesis
    unfolding shape
    by (cases out) (simp_all add: failRequest_simps failRequest_entries recordSuccess_entries)
qed
section \<open>Evaluation of the examples\<close>

lemma adapterA_simps:
  "getName adapterA = stableDiffusion"
  "generateImage adapterA q = Inl (newError ''timeout'')"
  "validateParams adapterA q"
  "getCapabilities adapterA = stableDiffusionCapabilities"
  "estimateCost adapterA q = exampleCost 0.02"
  by (simp_all add: adapterA_def failingAdapter_def)

lemma adapterB_simps:
  "getName adapterB = imagen4"
  "generateImage adapterB q = Inr resultB"
  "validateParams adapterB q"
  "getCapabilities adapterB = imagenCapabilities"
  "estimateCost adapterB q = exampleCost 0.03"
  by (simp_all add: adapterB_def resultB_def workingAdapter_def)

lemma adapterB_down_simps:
  "getName adapterB_down = imagen4"
  "generateImage adapterB_down q = Inl (newError ''quota exceeded'')"
  "validateParams adapterB_down q"
  "getCapabilities adapterB_down = imagenCapabilities"
  "estimateCost adapterB_down q = exampleCost 0.03"
  by (simp_all add: adapterB_down_def failingAdapter_def)

lemma adapterC_simps:
  "getName adapterC = dalleE3"
  "\<not> validateParams adapterC q"
  by (simp_all add: adapterC_def rejectingAdapter_def)

lemma workingAdapter_simps:
  "validateParams (workingAdapter p caps c) q"
  "getCapabilities (workingAdapter p caps c) = caps"
  "estimateCost (workingAdapter p caps c) q = exampleCost c"
  by (simp_all add: workingAdapter_def)

lemmas adapter_simps =
  adapterA_simps adapterB_simps adapterB_down_simps adapterC_simps workingAdapter_simps

lemma exampleCost_simps: "totalCost (exampleCost c) = c" "costPerImage (exampleCost c) = c"
  by (simp_all add: exampleCost_def)

lemma exampleParams_simps:
  "provider exampleParams = None" "provider (explicitParams p) = Some p"
  by (simp_all add: exampleParams_def explicitParams_def)

lemma resultB_cost: "metadata_cost resultB = 0.03"
  by (simp add: resultB_def exampleResult_def)

lemma manager_simps:
  "providers managerAB = [(imagen4, adapterB), (stableDiffusion, adapterA)]"
  "config managerAB = initializeDefaultConfig"
  "healthStatus managerAB = [imagen4 \<mapsto> True, stableDiffusion \<mapsto> True]"
  "providers managerABC = [(dalleE3, adapterC), (imagen4, adapterB), (stableDiffusion, adapterA)]"
  "config managerABC = initializeDefaultConfig"
  "healthStatus managerABC = [dalleE3 \<mapsto> True, imagen4 \<mapsto> True, stableDiffusion \<mapsto> True]"
  "providers managerDown = [(imagen4, adapterB_down), (stableDiffusion, adapterA)]"
  "config managerDown = initializeDefaultConfig"
  "healthStatus managerDown = [imagen4 \<mapsto> True, stableDiffusion \<mapsto> True]"
  "providers managerTie =
     [(imagen4, adapterB), (dalleE3, workingAdapter dalleE3 imagenCapabilities 0.03)]"
  "config managerTie = (\<lambda>p. defaultConfig)"
  "healthStatus managerTie = [imagen4 \<mapsto> True, dalleE3 \<mapsto> True]"
  by (simp_all add: managerAB_def managerABC_def managerDown_def managerTie_def)

lemma default_enabled: "enabled (initializeDefaultConfig p)" "enabled defaultConfig"
  by (cases p) (simp_all add: initializeDefaultConfig_def defaultConfig_def)

lemma default_priority:
  "priority (initializeDefaultConfig dalleE3) = 2"
  "priority (initializeDefaultConfig imagen4) = 1"
  "priority (initializeDefaultConfig stableDiffusion) = 3"
  by (simp_all add: initializeDefaultConfig_def defaultConfig_def)

lemma available_examples:
  "isProviderAvailable managerAB imagen4" "isProviderAvailable managerAB stableDiffusion"
  "isProviderAvailable managerABC dalleE3" "isProviderAvailable managerABC imagen4"
  "isProviderAvailable managerABC stableDiffusion"
  "isProviderAvailable managerDown imagen4" "isProviderAvailable managerDown stableDiffusion"
  "isProviderAvailable managerTie imagen4" "isProviderAvailable managerTie dalleE3"
  by (simp_all add: isProviderAvailable_def manager_simps default_enabled)

text \<open>
  The score of capabilities as the adapters return them does not depend on the manager:
  they have no \<open>name\<close>, so the health lookup finds nothing.
\<close>

lemma example_scores:
  "calculateProviderScore this q imagenCapabilities (exampleCost (3 / 100))
      (initializeDefaultConfig imagen4) = 9 / 20"
  "calculateProviderScore this q stableDiffusionCapabilities (exampleCost (1 / 50))
      (initializeDefaultConfig stableDiffusion) = 119 / 200"
  "calculateProviderScore this q imagenCapabilities (exampleCost (3 / 100)) defaultConfig = 9 / 20"
  by (simp_all add: calculateProviderScore_def imagenCapabilities_def
      stableDiffusionCapabilities_def exampleCost_def initializeDefaultConfig_def
      defaultConfig_def healthOf_def Let_def)

lemma example_reason:
  "\<not> 0.8 < s \<Longrightarrow> c < 0.05 \<Longrightarrow>
   generateSelectionReason s (exampleCost c) caps = ''Best cost efficiency''"
  by (simp add: generateSelectionReason_def exampleCost_def)

lemmas evaluate_simps =
  evaluateProviders_def manager_simps adapter_simps exampleCost_simps available_examples
  example_scores example_reason Let_def

lemma evaluate_managerAB:
  "evaluateProviders managerAB exampleParams =
     [\<lparr> cand_provider = imagen4, cand_score = 0.45, cand_reason = ''Best cost efficiency'',
        cand_estimatedCost = 0.03 \<rparr>,
      \<lparr> cand_provider = stableDiffusion, cand_score = 0.595,
        cand_reason = ''Best cost efficiency'', cand_estimatedCost = 0.02 \<rparr>]"
  by (simp add: evaluate_simps)

lemma evaluate_managerDown:
  "evaluateProviders managerDown exampleParams =
     [\<lparr> cand_provider = imagen4, cand_score = 0.45, cand_reason = ''Best cost efficiency'',
        cand_estimatedCost = 0.03 \<rparr>,
      \<lparr> cand_provider = stableDiffusion, cand_score = 0.595,
        cand_reason = ''Best cost efficiency'', cand_estimatedCost = 0.02 \<rparr>]"
  by (simp add: evaluate_simps)

lemma evaluate_managerTie:
  "evaluateProviders managerTie exampleParams =
     [\<lparr> cand_provider = imagen4, cand_score = 0.45, cand_reason = ''Best cost efficiency'',
        cand_estimatedCost = 0.03 \<rparr>,
      \<lparr> cand_provider = dalleE3, cand_score = 0.45,
        cand_reason = ''Best cost efficiency'', cand_estimatedCost = 0.03 \<rparr>]"
  by (simp add: evaluate_simps)

lemma select_managerAB:
  "selectProvider managerAB exampleParams =
     (Inr \<lparr> sel_provider = stableDiffusion, reason = ''Best cost efficiency'',
            estimatedCost = 0.02, confidence = 0.595 \<rparr>, [imagen4, stableDiffusion])"
  by (simp add: selectProvider_def userSpecified_def exampleParams_simps evaluate_managerAB
      js_sort_def)

lemma select_managerDown:
  "selectProvider managerDown exampleParams =
     (Inr \<lparr> sel_provider = stableDiffusion, reason = ''Best cost efficiency'',
            estimatedCost = 0.02, confidence = 0.595 \<rparr>, [imagen4, stableDiffusion])"
  by (simp add: selectProvider_def userSpecified_def exampleParams_simps evaluate_managerDown
      js_sort_def)

lemma select_managerTie:
  "selectProvider managerTie exampleParams =
     (Inr \<lparr> sel_provider = imagen4, reason = ''Best cost efficiency'',
            estimatedCost = 0.03, confidence = 0.45 \<rparr>, [imagen4, dalleE3])"
  by (simp add: selectProvider_def userSpecified_def exampleParams_simps evaluate_managerTie
      js_sort_def)

lemma select_explicit:
  "selectProvider managerAB (explicitParams imagen4) =
     (Inr \<lparr> sel_provider = imagen4, reason = ''User specified'', estimatedCost = 0.03,
            confidence = 1 \<rparr>, [])"
  by (simp add: selectProvider_def userSpecified_def exampleParams_simps available_examples
      manager_simps adapter_simps exampleCost_simps)

lemma fallbacks_examples:
  "getFallbackProviders managerAB stableDiffusion = [imagen4]"
  "getFallbackProviders managerABC stableDiffusion = [dalleE3, imagen4]"
  "getFallbackProviders managerDown stableDiffusion = [imagen4]"
  by (simp_all add: getFallbackProviders_def js_sort_def manager_simps default_priority)

lemma eligible_examples:
  "eligible managerAB q imagen4"
  "\<not> eligible managerABC q dalleE3" "eligible managerABC q imagen4"
  "eligible managerDown q imagen4"
  by (simp_all add: eligible_def adapterValidates_def available_examples manager_simps
      adapter_simps)

lemma calls_examples:
  "adapterCall managerAB q imagen4 = Some (Inr resultB)"
  "adapterCall managerABC q imagen4 = Some (Inr resultB)"
  "adapterCall managerDown q imagen4 = Some (Inl (newError ''quota exceeded''))"
  by (simp_all add: adapterCall_def manager_simps adapter_simps)

lemma callFails_examples:
  "\<not> callFails managerAB q imagen4" "\<not> callFails managerABC q imagen4"
  "callFails managerDown q imagen4"
  by (simp_all add: callFails_def calls_examples)

lemma fallback_managerAB:
  "generateWithFallback managerAB adapterA q =
     (Inr resultB, [(stableDiffusion, Inl (newError ''timeout'')), (imagen4, Inr resultB)])"
  by (simp add: generateWithFallback_def adapter_simps fallbacks_examples fallbackLoop_success
      eligible_examples calls_examples)

lemma fallback_managerABC:
  "generateWithFallback managerABC adapterA q =
     (Inr resultB, [(stableDiffusion, Inl (newError ''timeout'')), (imagen4, Inr resultB)])"
  by (simp add: generateWithFallback_def adapter_simps fallbacks_examples fallbackLoop_skip
      fallbackLoop_success eligible_examples calls_examples)

lemma fallback_managerDown:
  "generateWithFallback managerDown adapterA q =
     (Inl (newError ''All providers failed. Last error: quota exceeded''),
      [(stableDiffusion, Inl (newError ''timeout'')),
       (imagen4, Inl (newError ''quota exceeded''))])"
  by (simp add: generateWithFallback_def adapter_simps fallbacks_examples fallbackLoop_fail
      fallbackLoop_Nil eligible_examples calls_examples lastErrorMessage_def newError_def)

lemma request_managerAB:
  "ProviderManager_generateImage managerAB rc st t exampleParams =
     \<lparr> outcome = Inr resultB,
       scored = [imagen4, stableDiffusion],
       attempts = [(stableDiffusion, Inl (newError ''timeout'')), (imagen4, Inr resultB)],
       redis = recordSuccess rc t stableDiffusion (t - st) 0.03 \<rparr>"
  by (simp add: ProviderManager_generateImage_def select_managerAB manager_simps
      fallback_managerAB resultB_cost)

lemma request_managerDown:
  "ProviderManager_generateImage managerDown rc st t exampleParams =
     failRequest rc st t exampleParams
       (newError ''All providers failed. Last error: quota exceeded'')
       [imagen4, stableDiffusion]
       [(stableDiffusion, Inl (newError ''timeout'')),
        (imagen4, Inl (newError ''quota exceeded''))]"
  by (simp add: ProviderManager_generateImage_def select_managerDown manager_simps
      fallback_managerDown)

section \<open>The theorems at the examples\<close>

theorem selectProvider_best_score_witness:
  "provider exampleParams = None
   \<and> map cand_provider (evaluateProviders managerAB exampleParams) = [imagen4, stableDiffusion]
   \<and> map cand_score (evaluateProviders managerAB exampleParams) = [0.45, 0.595]
   \<and> fst (selectProvider managerAB exampleParams) =
       Inr \<lparr> sel_provider = stableDiffusion, reason = ''Best cost efficiency'',
             estimatedCost = 0.02, confidence = 0.595 \<rparr>
   \<and> map cand_provider (evaluateProviders managerTie exampleParams) = [imagen4, dalleE3]
   \<and> map cand_score (evaluateProviders managerTie exampleParams) = [0.45, 0.45]
   \<and> fst (selectProvider managerTie exampleParams) =
       Inr \<lparr> sel_provider = imagen4, reason = ''Best cost efficiency'',
             estimatedCost = 0.03, confidence = 0.45 \<rparr>"
proof -
  have none: "provider exampleParams = None" by (simp add: exampleParams_simps)
  have neAB: "evaluateProviders managerAB exampleParams \<noteq> []" by (simp add: evaluate_managerAB)
  have neTie: "evaluateProviders managerTie exampleParams \<noteq> []"
    by (simp add: evaluate_managerTie)
  note selectProvider_best_score [OF none neAB] selectProvider_best_score [OF none neTie]
  then show ?thesis
    using none by (simp add: evaluate_managerAB evaluate_managerTie select_managerAB
        select_managerTie)
qed

theorem explicit_provider_selected_witness:
  "provider (explicitParams imagen4) = Some imagen4
   \<and> isProviderAvailable managerAB imagen4
   \<and> map_of (providers managerAB) imagen4 = Some adapterB
   \<and> validateParams adapterB (explicitParams imagen4)
   \<and> selectProvider managerAB (explicitParams imagen4) =
       (Inr \<lparr> sel_provider = imagen4, reason = ''User specified'', estimatedCost = 0.03,
              confidence = 1 \<rparr>, [])
   \<and> outcome (ProviderManager_generateImage managerAB emptyRedis 0 1500 (explicitParams imagen4))
       = Inr resultB
   \<and> attempts (ProviderManager_generateImage managerAB emptyRedis 0 1500 (explicitParams imagen4))
       = [(imagen4, Inr resultB)]
   \<and> snd (selectProvider managerAB exampleParams) = [imagen4, stableDiffusion]"
proof -
  have h: "provider (explicitParams imagen4) = Some imagen4 \<and> isProviderAvailable managerAB imagen4
      \<and> map_of (providers managerAB) imagen4 = Some adapterB
      \<and> validateParams adapterB (explicitParams imagen4)"
    by (simp add: exampleParams_simps available_examples manager_simps adapter_simps)
  have g: "generateImage adapterB (explicitParams imagen4) = Inr resultB"
    by (simp add: adapter_simps)
  from explicit_provider_selected [of "explicitParams imagen4" imagen4 managerAB adapterB
      emptyRedis 0 1500] h g
  show ?thesis
    by (simp add: adapter_simps exampleCost_simps select_managerAB)
qed

theorem generateWithFallback_order_witness:
  "generateImage adapterA exampleParams = Inl (newError ''timeout'')
   \<and> priority (config managerAB stableDiffusion) = 3
   \<and> priority (config managerAB imagen4) = 1
   \<and> getFallbackProviders managerAB stableDiffusion = [imagen4]
   \<and> generateWithFallback managerAB adapterA exampleParams
      = (Inr resultB, [(stableDiffusion, Inl (newError ''timeout'')), (imagen4, Inr resultB)])
   \<and> getFallbackProviders managerABC stableDiffusion = [dalleE3, imagen4]
   \<and> filter (eligible managerABC exampleParams) [dalleE3, imagen4] = [imagen4]
   \<and> map fst (snd (generateWithFallback managerABC adapterA exampleParams))
      = [stableDiffusion, imagen4]
   \<and> fst (generateWithFallback managerABC adapterA exampleParams) = Inr resultB"
proof -
  have h: "generateImage adapterA exampleParams = Inl (newError ''timeout'')"
    by (simp add: adapter_simps)
  from generateWithFallback_order [OF h, of managerABC]
  have "map fst (snd (generateWithFallback managerABC adapterA exampleParams))
      = [stableDiffusion, imagen4]
     \<and> Some (Inr resultB) = Some (fst (generateWithFallback managerABC adapterA exampleParams))"
    by (simp add: Let_def adapter_simps fallbacks_examples eligible_examples callFails_examples
        calls_examples)
  then show ?thesis
    using h by (simp add: manager_simps default_priority fallbacks_examples fallback_managerAB
        eligible_examples)
qed

theorem all_candidates_fail_last_error_witness:
  "generateImage adapterA exampleParams = Inl (newError ''timeout'')
   \<and> callFails managerDown exampleParams imagen4
   \<and> generateWithFallback managerDown adapterA exampleParams
      = (Inl (newError ''All providers failed. Last error: quota exceeded''),
         [(stableDiffusion, Inl (newError ''timeout'')),
          (imagen4, Inl (newError ''quota exceeded''))])
   \<and> outcome (ProviderManager_generateImage managerDown emptyRedis 0 1500 exampleParams)
      = Inl (newError ''All providers failed. Last error: quota exceeded'')
   \<and> last (attempts (ProviderManager_generateImage managerDown emptyRedis 0 1500 exampleParams))
      = (imagen4, Inl (newError ''quota exceeded''))"
proof -
  have h: "generateImage adapterA exampleParams = Inl (newError ''timeout'')
      \<and> (\<forall>p \<in> set (filter (eligible managerDown exampleParams)
                       (getFallbackProviders managerDown (getName adapterA))).
            callFails managerDown exampleParams p)"
    by (simp add: adapter_simps fallbacks_examples eligible_examples callFails_examples)
  have o: "outcome (ProviderManager_generateImage managerDown emptyRedis 0 1500 exampleParams)
      = Inl (newError ''All providers failed. Last error: quota exceeded'')
      \<and> attempts (ProviderManager_generateImage managerDown emptyRedis 0 1500 exampleParams) \<noteq> []"
    by (simp add: request_managerDown failRequest_simps)
  from all_candidates_fail_last_error [of adapterA exampleParams "newError ''timeout''"
      managerDown emptyRedis 0 1500
      "newError ''All providers failed. Last error: quota exceeded''"] h o
  show ?thesis
    by (simp add: adapter_simps callFails_examples fallback_managerDown
        request_managerDown failRequest_simps)
qed

theorem one_metric_per_request_witness:
  "\<not> setExThrows emptyRedis \<and> setExThrows failingRedis
   \<and> map (\<lambda>(k, ttl, m). (k, ttl, success m, duration m, m_cost m))
       (entries (redis (ProviderManager_generateImage managerAB emptyRedis 0 1500 exampleParams)))
      = [((''metrics:stableDiffusion:'', 1500), 86400, True, 1500, Some 0.03)]
   \<and> entries (redis (ProviderManager_generateImage managerAB failingRedis 0 1500 exampleParams)) = []
   \<and> outcome (ProviderManager_generateImage managerAB failingRedis 0 1500 exampleParams)
      = outcome (ProviderManager_generateImage managerAB emptyRedis 0 1500 exampleParams)
   \<and> map (\<lambda>(k, ttl, m). (k, ttl, success m, duration m, m_cost m))
       (entries (redis (ProviderManager_generateImage managerDown emptyRedis 0 1500 exampleParams)))
      = [((''metrics:unknown:'', 1500), 86400, False, 1500, None)]"
  using one_metric_per_request [of emptyRedis managerAB 0 1500 exampleParams failingRedis 0 1500]
    one_metric_per_request [of failingRedis managerAB 0 1500 exampleParams emptyRedis 0 1500]
    one_metric_per_request [of emptyRedis managerDown 0 1500 exampleParams failingRedis 0 1500]
  by (simp add: request_managerAB request_managerDown recordSuccess_entries failRequest_entries
      emptyRedis_def failingRedis_def providerString_def exampleParams_simps)

text \<open>
  The claim as stated fails on a request whose primary adapter fails and whose fallback
  succeeds: two adapter attempts, one metric event, which carries the primary's name and
  the success flag; the failed attempt has no event and the successful adapter is not
  named.
\<close>

theorem attempts_not_each_recorded_counterexample:
  "attempts (ProviderManager_generateImage managerAB emptyRedis 0 1500 exampleParams)
      = [(stableDiffusion, Inl (newError ''timeout'')), (imagen4, Inr resultB)]
   \<and> map (\<lambda>(k, ttl, m). (m_provider m, success m, m_cost m))
       (entries (redis (ProviderManager_generateImage managerAB emptyRedis 0 1500 exampleParams)))
      = [(''stableDiffusion'', True, Some 0.03)]
   \<and> length (attempts (ProviderManager_generateImage managerAB emptyRedis 0 1500 exampleParams))
      \<noteq> length (entries (redis
            (ProviderManager_generateImage managerAB emptyRedis 0 1500 exampleParams)))"
  by (simp add: request_managerAB recordSuccess_entries emptyRedis_def providerString_def)

end
